theory Spec2Isabelle
  imports Complex_Main "HOL-Library.Word"
begin

section \<open>Data model\<close>

text \<open>
  Ordinates are C++ doubles. They are modelled as reals: the only operation the
  functions below apply to them is the comparison \<open>==\<close>, and NaN ordinates are
  rejected at input (section 9 of the specification).
\<close>

record Coordinate =
  x_ord :: real
  y_ord :: real
  z_ord :: real

text \<open>\<open>CoordinateXY::equals2D\<close>: both planar ordinates agree.\<close>

definition equals2D :: "Coordinate \<Rightarrow> Coordinate \<Rightarrow> bool" where
  "equals2D p q = (x_ord p = x_ord q \<and> y_ord p = y_ord q)"

record CoordinateSequence =
  cs_dimension :: nat
  coords :: "Coordinate list"

datatype GeometryTypeId =
    GEOS_POINT | GEOS_LINESTRING | GEOS_LINEARRING | GEOS_POLYGON
  | GEOS_MULTIPOINT | GEOS_MULTILINESTRING | GEOS_MULTIPOLYGON
  | GEOS_GEOMETRYCOLLECTION

text \<open>
  The geometry hierarchy as a tagged variant. A polygon holds its shell and its
  holes; the three homogeneous collections and the heterogeneous one hold their
  member geometries, as the C++ class \<open>GeometryCollection\<close> does
  (\<open>std::vector<std::unique_ptr<Geometry>> geometries\<close>).
\<close>

datatype Geometry =
    Point CoordinateSequence
  | LineString CoordinateSequence
  | LinearRing CoordinateSequence
  | Polygon CoordinateSequence "CoordinateSequence list"
  | MultiPoint "Geometry list"
  | MultiLineString "Geometry list"
  | MultiPolygon "Geometry list"
  | GeometryCollection "Geometry list"

fun getGeometryTypeId :: "Geometry \<Rightarrow> GeometryTypeId" where
  "getGeometryTypeId (Point _) = GEOS_POINT"
| "getGeometryTypeId (LineString _) = GEOS_LINESTRING"
| "getGeometryTypeId (LinearRing _) = GEOS_LINEARRING"
| "getGeometryTypeId (Polygon _ _) = GEOS_POLYGON"
| "getGeometryTypeId (MultiPoint _) = GEOS_MULTIPOINT"
| "getGeometryTypeId (MultiLineString _) = GEOS_MULTILINESTRING"
| "getGeometryTypeId (MultiPolygon _) = GEOS_MULTIPOLYGON"
| "getGeometryTypeId (GeometryCollection _) = GEOS_GEOMETRYCOLLECTION"

text \<open>
  The factories build a \<open>MultiPoint\<close> from points only, a \<open>MultiLineString\<close>
  from line strings only and a \<open>MultiPolygon\<close> from polygons only.
\<close>

fun wellFormed :: "Geometry \<Rightarrow> bool" where
  "wellFormed (MultiPoint gs) = list_all (\<lambda>g. getGeometryTypeId g = GEOS_POINT) gs"
| "wellFormed (MultiLineString gs) = list_all (\<lambda>g. getGeometryTypeId g = GEOS_LINESTRING) gs"
| "wellFormed (MultiPolygon gs) = list_all (\<lambda>g. getGeometryTypeId g = GEOS_POLYGON) gs"
| "wellFormed (GeometryCollection gs) = list_all wellFormed gs"
| "wellFormed _ = True"

text \<open>
  Modelled from the spec: \<open>Geometry::isEmpty\<close> (the implementations in
  Point.cpp, LineString.cpp, Polygon.cpp and GeometryCollection.cpp are not part
  of src/). A point or a line is empty when it has no coordinate, a polygon when
  its shell is empty, a collection when all its members are empty.
\<close>

fun isEmpty :: "Geometry \<Rightarrow> bool" where
  "isEmpty (Point cs) = (coords cs = [])"
| "isEmpty (LineString cs) = (coords cs = [])"
| "isEmpty (LinearRing cs) = (coords cs = [])"
| "isEmpty (Polygon shell holes) = (coords shell = [])"
| "isEmpty (MultiPoint gs) = list_all isEmpty gs"
| "isEmpty (MultiLineString gs) = list_all isEmpty gs"
| "isEmpty (MultiPolygon gs) = list_all isEmpty gs"
| "isEmpty (GeometryCollection gs) = list_all isEmpty gs"

text \<open>\<open>Dimension::DimensionType\<close>: False = -1, P = 0, L = 1, A = 2.\<close>

definition Dimension_False :: int where "Dimension_False = - 1"
definition Dimension_P :: int where "Dimension_P = 0"
definition Dimension_L :: int where "Dimension_L = 1"
definition Dimension_A :: int where "Dimension_A = 2"

text \<open>
  Modelled from the spec: \<open>Geometry::getDimension\<close> (implementations not part
  of src/). The dimension of an atomic geometry is that of its class; for a
  collection GeometryCollection.h documents it as "the maximum dimension of
  geometries in this collection", \<open>Dimension::False\<close> when there is none.
\<close>

fun getDimension :: "Geometry \<Rightarrow> int" where
  "getDimension (Point _) = Dimension_P"
| "getDimension (LineString _) = Dimension_L"
| "getDimension (LinearRing _) = Dimension_L"
| "getDimension (Polygon _ _) = Dimension_A"
| "getDimension (MultiPoint gs) = fold (\<lambda>g d. max d (getDimension g)) gs Dimension_False"
| "getDimension (MultiLineString gs) = fold (\<lambda>g d. max d (getDimension g)) gs Dimension_False"
| "getDimension (MultiPolygon gs) = fold (\<lambda>g d. max d (getDimension g)) gs Dimension_False"
| "getDimension (GeometryCollection gs) = fold (\<lambda>g d. max d (getDimension g)) gs Dimension_False"

text \<open>
  A \<open>static_cast<const GeometryCollection*>\<close> applied to an object that is not
  a \<open>GeometryCollection\<close> (or one of its three subclasses) has undefined
  behaviour, as has every member call through the resulting pointer. The model
  makes this an error value.
\<close>

datatype error = InvalidDowncast | IllegalArgumentException

fun as_GeometryCollection :: "Geometry \<Rightarrow> error + Geometry list" where
  "as_GeometryCollection (MultiPoint gs) = Inr gs"
| "as_GeometryCollection (MultiLineString gs) = Inr gs"
| "as_GeometryCollection (MultiPolygon gs) = Inr gs"
| "as_GeometryCollection (GeometryCollection gs) = Inr gs"
| "as_GeometryCollection _ = Inl InvalidDowncast"

text \<open>
  Modelled from the spec: \<open>GeometryCollection::getAllGeometries\<close> (declared in
  GeometryCollection.h, implementation not part of src/): "Recurse into
  collection and populate vector with just the simple non-collection components
  of the collection." The argument is the member vector \<open>geometries\<close>.
\<close>

fun getAllGeometries :: "Geometry list \<Rightarrow> Geometry list" where
  "getAllGeometries [] = []"
| "getAllGeometries (Point cs # gs) = Point cs # getAllGeometries gs"
| "getAllGeometries (LineString cs # gs) = LineString cs # getAllGeometries gs"
| "getAllGeometries (LinearRing cs # gs) = LinearRing cs # getAllGeometries gs"
| "getAllGeometries (Polygon sh hs # gs) = Polygon sh hs # getAllGeometries gs"
| "getAllGeometries (MultiPoint ms # gs) = getAllGeometries ms @ getAllGeometries gs"
| "getAllGeometries (MultiLineString ms # gs) = getAllGeometries ms @ getAllGeometries gs"
| "getAllGeometries (MultiPolygon ms # gs) = getAllGeometries ms @ getAllGeometries gs"
| "getAllGeometries (GeometryCollection ms # gs) = getAllGeometries ms @ getAllGeometries gs"

section \<open>RelateGeometry: zero-length test\<close>

definition getNumPoints :: "CoordinateSequence \<Rightarrow> nat" where
  "getNumPoints cs = length (coords cs)"

definition getCoordinateN :: "CoordinateSequence \<Rightarrow> nat \<Rightarrow> Coordinate" where
  "getCoordinateN cs i = coords cs ! i"

text \<open>
  The loop of \<open>RelateGeometry::isZeroLength(const LineString*)\<close>, from index
  \<open>i\<close> on: it reads vertex \<open>i\<close> (not always vertex 1) and only while
  \<open>i < getNumPoints\<close>, so every read is in range.
\<close>

function isZeroLength_loop :: "CoordinateSequence \<Rightarrow> Coordinate \<Rightarrow> nat \<Rightarrow> bool" where
  "isZeroLength_loop line p0 i =
     (if i < getNumPoints line
      then (if \<not> equals2D p0 (getCoordinateN line i) then False
            else isZeroLength_loop line p0 (i + 1))
      else True)"
  by pat_completeness auto
termination
  by (relation "measure (\<lambda>(line, p0, i). getNumPoints line - i)") auto

declare isZeroLength_loop.simps [simp del]

definition isZeroLength_LineString :: "CoordinateSequence \<Rightarrow> bool" where
  "isZeroLength_LineString line =
     (if getNumPoints line \<ge> 2
      then isZeroLength_loop line (getCoordinateN line 0) 1
      else True)"

text \<open>
  The loop body of \<open>RelateGeometry::isZeroLength(const Geometry*)\<close> over the
  elements delivered by \<open>getAllGeometries\<close>.
\<close>

fun isZeroLength_elems :: "Geometry list \<Rightarrow> bool" where
  "isZeroLength_elems [] = True"
| "isZeroLength_elems (LineString cs # elems) =
     (if \<not> isZeroLength_LineString cs then False else isZeroLength_elems elems)"
| "isZeroLength_elems (_ # elems) = isZeroLength_elems elems"

text \<open>
  \<open>RelateGeometry::isZeroLength(const Geometry*)\<close>: the argument is cast to a
  \<open>GeometryCollection\<close> whatever its class, and \<open>getAllGeometries\<close> is called
  on the result.
\<close>

definition isZeroLength :: "Geometry \<Rightarrow> error + bool" where
  "isZeroLength geom =
     (case as_GeometryCollection geom of
        Inl e \<Rightarrow> Inl e
      | Inr col \<Rightarrow> Inr (isZeroLength_elems (getAllGeometries col)))"

section \<open>Concrete inputs\<close>

text \<open>Concrete inputs: a planar coordinate and a two-dimensional sequence.\<close>

abbreviation xy :: "real \<Rightarrow> real \<Rightarrow> Coordinate" where
  "xy a b \<equiv> \<lparr>x_ord = a, y_ord = b, z_ord = 0\<rparr>"

abbreviation seq2 :: "Coordinate list \<Rightarrow> CoordinateSequence" where
  "seq2 ps \<equiv> \<lparr>cs_dimension = 2, coords = ps\<rparr>"

section \<open>RelateGeometry: construction and dimensions\<close>

datatype BoundaryNodeRule = Mod2 | Endpoint | MultivalentEndpoint | MonovalentEndpoint

text \<open>
  The locator is built by the constructor of \<open>RelatePointLocator\<close>, which is
  not part of src/; the model keeps the three arguments it is built from.
\<close>

record RelatePointLocator =
  loc_geom :: Geometry
  loc_isPrepared :: bool
  loc_boundaryRule :: BoundaryNodeRule

text \<open>
  The fields of \<open>RelateGeometry\<close>. The cached envelope pointer is left out.
  \<open>RelateGeometry.h\<close> is not part of src/: the flags, the element counter and
  the two caches start as \<open>false\<close>, \<open>0\<close>, null and the empty set. The unique
  points are kept as a set of planar coordinates (\<open>Coordinate::ConstXYSet\<close>
  orders and identifies its members by x and y).
\<close>

record RelateGeometry =
  geom :: Geometry
  m_isPrepared :: bool
  boundaryNodeRule :: BoundaryNodeRule
  geomDim :: int
  isLineZeroLen :: bool
  isGeomEmpty :: bool
  hasPoints :: bool
  hasLines :: bool
  hasAreas :: bool
  elementId :: int
  locator :: "RelatePointLocator option"
  uniquePoints :: "(real \<times> real) set"

text \<open>The body of the loop of \<open>analyzeDimensions\<close> for one element.\<close>

definition analyzeDimensions_elem :: "Geometry \<Rightarrow> RelateGeometry \<Rightarrow> RelateGeometry" where
  "analyzeDimensions_elem elem rg =
     (if isEmpty elem then rg
      else
        let rg1 = (if getGeometryTypeId elem = GEOS_POINT
                   then rg\<lparr>hasPoints := True,
                           geomDim := (if geomDim rg < Dimension_P then Dimension_P else geomDim rg)\<rparr>
                   else rg);
            rg2 = (if getGeometryTypeId elem = GEOS_LINESTRING
                   then rg1\<lparr>hasLines := True,
                            geomDim := (if geomDim rg1 < Dimension_L then Dimension_L else geomDim rg1)\<rparr>
                   else rg1);
            rg3 = (if getGeometryTypeId elem = GEOS_POLYGON
                   then rg2\<lparr>hasAreas := True,
                            geomDim := (if geomDim rg2 < Dimension_A then Dimension_A else geomDim rg2)\<rparr>
                   else rg2)
        in rg3)"

definition analyzeDimensions :: "RelateGeometry \<Rightarrow> error + RelateGeometry" where
  "analyzeDimensions rg =
     (if isGeomEmpty rg then Inr rg
      else
        let typeId = getGeometryTypeId (geom rg) in
        if typeId = GEOS_POINT \<or> typeId = GEOS_MULTIPOINT
        then Inr (rg\<lparr>hasPoints := True, geomDim := Dimension_P\<rparr>)
        else if typeId = GEOS_LINESTRING \<or> typeId = GEOS_MULTILINESTRING
        then Inr (rg\<lparr>hasLines := True, geomDim := Dimension_L\<rparr>)
        else if typeId = GEOS_POLYGON \<or> typeId = GEOS_MULTIPOLYGON
        then Inr (rg\<lparr>hasAreas := True, geomDim := Dimension_A\<rparr>)
        else
          (case as_GeometryCollection (geom rg) of
             Inl e \<Rightarrow> Inl e
           | Inr col \<Rightarrow> Inr (fold analyzeDimensions_elem (getAllGeometries col) rg)))"

text \<open>
  The member initialisers of the constructor, with the value \<open>zl\<close> of
  \<open>isZeroLength(input)\<close>, before \<open>analyzeDimensions\<close> runs.
\<close>

definition RelateGeometry_members ::
  "Geometry \<Rightarrow> bool \<Rightarrow> BoundaryNodeRule \<Rightarrow> bool \<Rightarrow> RelateGeometry" where
  "RelateGeometry_members input isPrepared bnRule zl =
     \<lparr>geom = input, m_isPrepared = isPrepared, boundaryNodeRule = bnRule,
      geomDim = getDimension input, isLineZeroLen = zl, isGeomEmpty = isEmpty input,
      hasPoints = False, hasLines = False, hasAreas = False,
      elementId = 0, locator = None, uniquePoints = {}\<rparr>"

text \<open>The constructor \<open>RelateGeometry::RelateGeometry\<close>.\<close>

definition RelateGeometry_new ::
  "Geometry \<Rightarrow> bool \<Rightarrow> BoundaryNodeRule \<Rightarrow> error + RelateGeometry" where
  "RelateGeometry_new input isPrepared bnRule =
     (case isZeroLength input of
        Inl e \<Rightarrow> Inl e
      | Inr zl \<Rightarrow> analyzeDimensions (RelateGeometry_members input isPrepared bnRule zl))"

definition RelateGeometry_getDimension :: "RelateGeometry \<Rightarrow> int" where
  "RelateGeometry_getDimension rg = geomDim rg"

definition hasDimension :: "RelateGeometry \<Rightarrow> int \<Rightarrow> bool" where
  "hasDimension rg d =
     (if d = Dimension_P then hasPoints rg
      else if d = Dimension_L then hasLines rg
      else if d = Dimension_A then hasAreas rg
      else False)"

definition getDimensionReal :: "RelateGeometry \<Rightarrow> int" where
  "getDimensionReal rg =
     (if isGeomEmpty rg then Dimension_False
      else if RelateGeometry_getDimension rg = Dimension_L \<and> isLineZeroLen rg then Dimension_P
      else if hasAreas rg then Dimension_A
      else if hasLines rg then Dimension_L
      else Dimension_P)"

definition hasEdges :: "RelateGeometry \<Rightarrow> bool" where
  "hasEdges rg = (hasLines rg \<or> hasAreas rg)"

section \<open>Notions used to state the properties of the dimension analysis\<close>

text \<open>
  The elements of a geometry: the atomic components of a collection, in the
  order \<open>getAllGeometries\<close> delivers them, and the geometry itself when it is
  atomic.
\<close>

definition elements :: "Geometry \<Rightarrow> Geometry list" where
  "elements g =
     (case as_GeometryCollection g of
        Inr col \<Rightarrow> getAllGeometries col
      | Inl _ \<Rightarrow> [g])"

definition nonEmptyElements :: "Geometry \<Rightarrow> Geometry list" where
  "nonEmptyElements g = filter (\<lambda>e. \<not> isEmpty e) (elements g)"

text \<open>The largest dimension among the given geometries, \<open>False\<close> if there is none.\<close>

definition maxDimension :: "Geometry list \<Rightarrow> int" where
  "maxDimension es = fold (\<lambda>e d. max d (getDimension e)) es Dimension_False"

definition hasElementOfDimension :: "Geometry \<Rightarrow> int \<Rightarrow> bool" where
  "hasElementOfDimension g d = list_ex (\<lambda>e. getDimension e = d) (nonEmptyElements g)"

definition hasLinearRingElement :: "Geometry \<Rightarrow> bool" where
  "hasLinearRingElement g =
     list_ex (\<lambda>e. getGeometryTypeId e = GEOS_LINEARRING) (elements g)"

text \<open>
  A line is zero-length when all its vertices are 2D-equal to the first; a
  geometry has only zero-length lines when that holds of every line string and
  every linear ring among its elements.
\<close>

definition zeroLengthLine :: "CoordinateSequence \<Rightarrow> bool" where
  "zeroLengthLine cs =
     (case coords cs of [] \<Rightarrow> True | p0 # ps \<Rightarrow> list_all (equals2D p0) ps)"

fun isZeroLengthElement :: "Geometry \<Rightarrow> bool" where
  "isZeroLengthElement (LineString cs) = zeroLengthLine cs"
| "isZeroLengthElement (LinearRing cs) = zeroLengthLine cs"
| "isZeroLengthElement _ = True"

definition allLinesZeroLength :: "Geometry \<Rightarrow> bool" where
  "allLinesZeroLength g = list_all isZeroLengthElement (elements g)"

section \<open>RelateGeometry: segment string extraction\<close>

text \<open>
  Modelled from the spec: \<open>RelateSegmentString\<close> and its factories
  \<open>createLine\<close> and \<open>createRing\<close> (RelateSegmentString.cpp is not part of
  src/). A segment string carries its coordinates, the source flag, the
  dimension, the element id, the ring id (0 = exterior, i > 0 = i-th hole,
  -1 = line) and the parent polygonal geometry when there is one. The
  back-pointer to the \<open>RelateGeometry\<close> is left out.
\<close>

record RelateSegmentString =
  ss_pts :: CoordinateSequence
  ss_isA :: bool
  ss_dimension :: int
  ss_id :: int
  ss_ringId :: int
  ss_parentPolygonal :: "Geometry option"

definition createLine :: "CoordinateSequence \<Rightarrow> bool \<Rightarrow> int \<Rightarrow> RelateSegmentString" where
  "createLine pts isA elemId =
     \<lparr>ss_pts = pts, ss_isA = isA, ss_dimension = Dimension_L, ss_id = elemId,
      ss_ringId = - 1, ss_parentPolygonal = None\<rparr>"

definition createRing ::
  "CoordinateSequence \<Rightarrow> bool \<Rightarrow> int \<Rightarrow> int \<Rightarrow> Geometry \<Rightarrow> RelateSegmentString" where
  "createRing pts isA elemId ringId parentPoly =
     \<lparr>ss_pts = pts, ss_isA = isA, ss_dimension = Dimension_A, ss_id = elemId,
      ss_ringId = ringId, ss_parentPolygonal = Some parentPoly\<rparr>"

text \<open>
  Modelled from the spec: \<open>getNumGeometries\<close> and \<open>getGeometryN\<close>
  (section 6; Geometry.cpp is not part of src/). A collection enumerates its
  members, an atomic geometry enumerates itself.
\<close>

fun getGeometries :: "Geometry \<Rightarrow> Geometry list" where
  "getGeometries (MultiPoint gs) = gs"
| "getGeometries (MultiLineString gs) = gs"
| "getGeometries (MultiPolygon gs) = gs"
| "getGeometries (GeometryCollection gs) = gs"
| "getGeometries g = [g]"

text \<open>
  The functions below take \<open>isect env g\<close>, which stands for
  \<open>env->intersects(g->getEnvelopeInternal())\<close> (Envelope.h is not part of
  src/). A null \<open>env\<close> is \<open>None\<close>. The extraction state is the
  \<open>RelateGeometry\<close>, whose member \<open>elementId\<close> is incremented and never
  reset, and the vector \<open>segStrings\<close>. Element and ring ids are C++
  \<open>int\<close>s; the model uses unbounded integers, exact below \<open>2^31\<close>.
\<close>

definition extractRingToSegmentString ::
  "('e \<Rightarrow> Geometry \<Rightarrow> bool) \<Rightarrow> bool \<Rightarrow> CoordinateSequence \<Rightarrow> int \<Rightarrow> 'e option \<Rightarrow> Geometry
     \<Rightarrow> RelateGeometry \<times> RelateSegmentString list
     \<Rightarrow> RelateGeometry \<times> RelateSegmentString list" where
  "extractRingToSegmentString isect isA ring ringId env parentPoly st =
     (if isEmpty (LinearRing ring) then st
      else if (case env of None \<Rightarrow> False | Some e \<Rightarrow> \<not> isect e (LinearRing ring)) then st
      else (fst st, snd st @ [createRing ring isA (elementId (fst st)) ringId parentPoly]))"

definition extractSegmentStringsFromAtomic ::
  "('e \<Rightarrow> Geometry \<Rightarrow> bool) \<Rightarrow> bool \<Rightarrow> Geometry \<Rightarrow> Geometry option \<Rightarrow> 'e option
     \<Rightarrow> RelateGeometry \<times> RelateSegmentString list
     \<Rightarrow> RelateGeometry \<times> RelateSegmentString list" where
  "extractSegmentStringsFromAtomic isect isA p_geom parentPolygonal env st =
     (if isEmpty p_geom then st
      else
        let doExtract = (case env of None \<Rightarrow> True | Some e \<Rightarrow> isect e p_geom) in
        if \<not> doExtract then st
        else
          let rg = (fst st)\<lparr>elementId := elementId (fst st) + 1\<rparr> in
          (case p_geom of
             LineString cs \<Rightarrow> (rg, snd st @ [createLine cs isA (elementId rg)])
           | Polygon shell holes \<Rightarrow>
               let parentPoly = (case parentPolygonal of Some mp \<Rightarrow> mp | None \<Rightarrow> p_geom);
                   st0 = extractRingToSegmentString isect isA shell 0 env parentPoly (rg, snd st)
               in fold (\<lambda>i. extractRingToSegmentString isect isA (holes ! i) (int (i + 1))
                               env parentPoly)
                       [0 ..< length holes] st0
           | _ \<Rightarrow> (rg, snd st)))"

function extractSegmentStrings_in ::
  "('e \<Rightarrow> Geometry \<Rightarrow> bool) \<Rightarrow> bool \<Rightarrow> 'e option \<Rightarrow> Geometry
     \<Rightarrow> RelateGeometry \<times> RelateSegmentString list
     \<Rightarrow> RelateGeometry \<times> RelateSegmentString list" where
  "extractSegmentStrings_in isect isA env p_geom st =
     fold (\<lambda>g st'.
             if getGeometryTypeId g = GEOS_GEOMETRYCOLLECTION
             then extractSegmentStrings_in isect isA env g st'
             else extractSegmentStringsFromAtomic isect isA g
                    (if getGeometryTypeId p_geom = GEOS_MULTIPOLYGON then Some p_geom else None)
                    env st')
          (getGeometries p_geom) st"
  by pat_completeness auto
termination
proof (relation "measure (\<lambda>(isect, isA, env, p_geom, st). size p_geom)")
  show "wf (measure (\<lambda>(isect, isA, env, p_geom, st). size p_geom))" by simp
next
  fix isect :: "'e \<Rightarrow> Geometry \<Rightarrow> bool" and isA :: bool and env :: "'e option"
    and p_geom g :: Geometry and st st' :: "RelateGeometry \<times> RelateSegmentString list"
  assume g: "g \<in> set (getGeometries p_geom)"
    and t: "getGeometryTypeId g = GEOS_GEOMETRYCOLLECTION"
  have "size g < size p_geom"
  proof (cases p_geom)
    case (MultiPoint gs)
    with g have "size g \<le> size_list size gs" by (simp add: size_list_estimation')
    with MultiPoint show ?thesis by simp
  next
    case (MultiLineString gs)
    with g have "size g \<le> size_list size gs" by (simp add: size_list_estimation')
    with MultiLineString show ?thesis by simp
  next
    case (MultiPolygon gs)
    with g have "size g \<le> size_list size gs" by (simp add: size_list_estimation')
    with MultiPolygon show ?thesis by simp
  next
    case (GeometryCollection gs)
    with g have "size g \<le> size_list size gs" by (simp add: size_list_estimation')
    with GeometryCollection show ?thesis by simp
  qed (use g t in auto)
  then show "((isect, isA, env, g, st'), (isect, isA, env, p_geom, st))
        \<in> measure (\<lambda>(isect, isA, env, p_geom, st). size p_geom)" by simp
qed

declare extractSegmentStrings_in.simps [simp del]

text \<open>The public \<open>extractSegmentStrings(isA, env)\<close>: the vector and the updated object.\<close>

definition extractSegmentStrings ::
  "('e \<Rightarrow> Geometry \<Rightarrow> bool) \<Rightarrow> RelateGeometry \<Rightarrow> bool \<Rightarrow> 'e option
     \<Rightarrow> RelateSegmentString list \<times> RelateGeometry" where
  "extractSegmentStrings isect rg isA env =
     (let st = extractSegmentStrings_in isect isA env (geom rg) (rg, [])
      in (snd st, fst st))"

section \<open>Notions used to state the properties of the extraction\<close>

text \<open>
  The atomic visits of the traversal: each geometry handed to
  \<open>extractSegmentStringsFromAtomic\<close>, in order, paired with its direct parent
  in the traversal.
\<close>

function atomicVisits :: "Geometry \<Rightarrow> (Geometry \<times> Geometry) list" where
  "atomicVisits p_geom =
     concat (map (\<lambda>g. if getGeometryTypeId g = GEOS_GEOMETRYCOLLECTION
                        then atomicVisits g else [(g, p_geom)])
                 (getGeometries p_geom))"
  by pat_completeness auto
termination
proof (relation "measure size")
  show "wf (measure size)" by simp
next
  fix p_geom g :: Geometry
  assume g: "g \<in> set (getGeometries p_geom)"
    and t: "getGeometryTypeId g = GEOS_GEOMETRYCOLLECTION"
  have "size g < size p_geom"
  proof (cases p_geom)
    case (MultiPoint gs)
    with g have "size g \<le> size_list size gs" by (simp add: size_list_estimation')
    with MultiPoint show ?thesis by simp
  next
    case (MultiLineString gs)
    with g have "size g \<le> size_list size gs" by (simp add: size_list_estimation')
    with MultiLineString show ?thesis by simp
  next
    case (MultiPolygon gs)
    with g have "size g \<le> size_list size gs" by (simp add: size_list_estimation')
    with MultiPolygon show ?thesis by simp
  next
    case (GeometryCollection gs)
    with g have "size g \<le> size_list size gs" by (simp add: size_list_estimation')
    with GeometryCollection show ?thesis by simp
  qed (use g t in auto)
  then show "(g, p_geom) \<in> measure size" by simp
qed

declare atomicVisits.simps [simp del]

text \<open>An atomic element is extracted when it is not empty and passes the envelope filter.\<close>

definition isExtracted :: "('e \<Rightarrow> Geometry \<Rightarrow> bool) \<Rightarrow> 'e option \<Rightarrow> Geometry \<Rightarrow> bool" where
  "isExtracted isect env g =
     (\<not> isEmpty g \<and> (case env of None \<Rightarrow> True | Some e \<Rightarrow> isect e g))"

text \<open>The parent recorded on the rings of a polygon whose direct parent is \<open>parent\<close>.\<close>

definition ringParent :: "Geometry \<Rightarrow> Geometry \<Rightarrow> Geometry" where
  "ringParent poly parent =
     (if getGeometryTypeId parent = GEOS_MULTIPOLYGON then parent else poly)"

text \<open>
  The segment strings of one extracted atomic element that received the element
  id \<open>eid\<close>: one for a line string, with ring id -1; for a polygon one for each
  ring (shell at index 0, i-th hole at index i) that is extracted itself, with
  the ring's index as ring id; none for any other element.
\<close>

definition ringSegmentStrings ::
  "('e \<Rightarrow> Geometry \<Rightarrow> bool) \<Rightarrow> bool \<Rightarrow> 'e option \<Rightarrow> CoordinateSequence list \<Rightarrow> int
     \<Rightarrow> Geometry \<Rightarrow> RelateSegmentString list" where
  "ringSegmentStrings isect isA env rings eid parentPoly =
     map (\<lambda>i. createRing (rings ! i) isA eid (int i) parentPoly)
         (filter (\<lambda>i. isExtracted isect env (LinearRing (rings ! i))) [0 ..< length rings])"

fun atomicSegmentStrings ::
  "('e \<Rightarrow> Geometry \<Rightarrow> bool) \<Rightarrow> bool \<Rightarrow> 'e option \<Rightarrow> int \<Rightarrow> Geometry \<Rightarrow> Geometry
     \<Rightarrow> RelateSegmentString list" where
  "atomicSegmentStrings isect isA env eid (LineString cs) parent = [createLine cs isA eid]"
| "atomicSegmentStrings isect isA env eid (Polygon shell holes) parent =
     ringSegmentStrings isect isA env (shell # holes) eid
       (ringParent (Polygon shell holes) parent)"
| "atomicSegmentStrings isect isA env eid _ parent = []"

text \<open>
  The segment strings of a list of extracted atomic visits, the first of which
  receives the element id \<open>eid\<close>, the next \<open>eid + 1\<close>, and so on.
\<close>

fun numberedSegmentStrings ::
  "('e \<Rightarrow> Geometry \<Rightarrow> bool) \<Rightarrow> bool \<Rightarrow> 'e option \<Rightarrow> int \<Rightarrow> (Geometry \<times> Geometry) list
     \<Rightarrow> RelateSegmentString list" where
  "numberedSegmentStrings isect isA env eid [] = []"
| "numberedSegmentStrings isect isA env eid ((g, parent) # vs) =
     atomicSegmentStrings isect isA env eid g parent
       @ numberedSegmentStrings isect isA env (eid + 1) vs"

definition extractedVisits ::
  "('e \<Rightarrow> Geometry \<Rightarrow> bool) \<Rightarrow> 'e option \<Rightarrow> Geometry \<Rightarrow> (Geometry \<times> Geometry) list" where
  "extractedVisits isect env g =
     filter (\<lambda>v. isExtracted isect env (fst v)) (atomicVisits g)"

section \<open>A concrete envelope, for concrete inputs\<close>

text \<open>
  Modelled from the spec: \<open>Envelope\<close>, \<open>getEnvelopeInternal\<close> and
  \<open>Envelope::intersects\<close> (not part of src/): the bounding rectangle of the
  coordinates of a geometry, null for an empty geometry, and the overlap test of
  two rectangles.
\<close>

record Envelope =
  minx :: real
  maxx :: real
  miny :: real
  maxy :: real

fun getCoordinates :: "Geometry \<Rightarrow> Coordinate list" where
  "getCoordinates (Point cs) = coords cs"
| "getCoordinates (LineString cs) = coords cs"
| "getCoordinates (LinearRing cs) = coords cs"
| "getCoordinates (Polygon shell holes) = coords shell @ concat (map coords holes)"
| "getCoordinates (MultiPoint gs) = concat (map getCoordinates gs)"
| "getCoordinates (MultiLineString gs) = concat (map getCoordinates gs)"
| "getCoordinates (MultiPolygon gs) = concat (map getCoordinates gs)"
| "getCoordinates (GeometryCollection gs) = concat (map getCoordinates gs)"

definition getEnvelopeInternal :: "Geometry \<Rightarrow> Envelope option" where
  "getEnvelopeInternal g =
     (case getCoordinates g of
        [] \<Rightarrow> None
      | c # cs \<Rightarrow> Some \<lparr>minx = fold min (map x_ord cs) (x_ord c),
                        maxx = fold max (map x_ord cs) (x_ord c),
                        miny = fold min (map y_ord cs) (y_ord c),
                        maxy = fold max (map y_ord cs) (y_ord c)\<rparr>)"

definition envelopeIntersects :: "Envelope \<Rightarrow> Geometry \<Rightarrow> bool" where
  "envelopeIntersects env g =
     (case getEnvelopeInternal g of
        None \<Rightarrow> False
      | Some other \<Rightarrow>
          \<not> (minx other > maxx env \<or> maxx other < minx env
             \<or> miny other > maxy env \<or> maxy other < miny env))"

section \<open>RelateGeometry: lazy caches\<close>



text \<open>
  \<open>createUniquePoints\<close> and \<open>getUniquePoints\<close>. \<open>extracter\<close> stands for
  \<open>ComponentCoordinateExtracter::getCoordinates\<close>, which is not part of src/.
\<close>

definition createUniquePoints ::
  "(Geometry \<Rightarrow> Coordinate list) \<Rightarrow> RelateGeometry \<Rightarrow> (real \<times> real) set" where
  "createUniquePoints extracter rg =
     set (map (\<lambda>c. (x_ord c, y_ord c)) (extracter (geom rg)))"

definition getUniquePoints ::
  "(Geometry \<Rightarrow> Coordinate list) \<Rightarrow> RelateGeometry \<Rightarrow> (real \<times> real) set \<times> RelateGeometry" where
  "getUniquePoints extracter rg =
     (if uniquePoints rg = {}
      then let u = createUniquePoints extracter rg in (u, rg\<lparr>uniquePoints := u\<rparr>)
      else (uniquePoints rg, rg))"

section \<open>WKBWriter\<close>

text \<open>
  The output stream is modelled as the list of the writes made to it. Each
  write sends one unit: a single byte (\<open>outStream->write(.., 1)\<close>), a
  4-byte integer laid out by \<open>ByteOrderValues::putInt\<close>, or an 8-byte double
  laid out by \<open>ByteOrderValues::putDouble\<close> (ByteOrderValues is not part of
  src/; the layout of the bytes of an integer or a double is not modelled).
\<close>

datatype WKBItem = ByteItem "8 word" | IntItem "32 word" | DoubleItem real

fun itemSize :: "WKBItem \<Rightarrow> nat" where
  "itemSize (ByteItem _) = 1"
| "itemSize (IntItem _) = 4"
| "itemSize (DoubleItem _) = 8"

record WKBWriter =
  outputDimension :: int
  byteOrder :: int

text \<open>The constructor \<open>WKBWriter::WKBWriter(int dims, int bo)\<close>.\<close>

definition WKBWriter_new :: "int \<Rightarrow> int \<Rightarrow> error + WKBWriter" where
  "WKBWriter_new dims bo =
     (if dims < 2 \<or> dims > 3 then Inl IllegalArgumentException
      else Inr \<lparr>outputDimension = dims, byteOrder = bo\<rparr>)"

text \<open>
  The geometry type codes of \<open>WKBConstants\<close> (WKBConstants.h is not part of
  src/), with the values of the WKB format.
\<close>

definition wkbPoint :: "32 word" where "wkbPoint = 1"
definition wkbLineString :: "32 word" where "wkbLineString = 2"
definition wkbPolygon :: "32 word" where "wkbPolygon = 3"
definition wkbMultiPoint :: "32 word" where "wkbMultiPoint = 4"
definition wkbMultiLineString :: "32 word" where "wkbMultiLineString = 5"
definition wkbMultiPolygon :: "32 word" where "wkbMultiPolygon = 6"
definition wkbGeometryCollection :: "32 word" where "wkbGeometryCollection = 7"

text \<open>
  \<open>writeByteOrder\<close> writes one byte, the first in memory of the \<open>int\<close>
  member \<open>byteOrder\<close>. The model takes a little-endian host, where that is
  the low-order byte of the value.
\<close>

definition writeByteOrder :: "WKBWriter \<Rightarrow> WKBItem list" where
  "writeByteOrder w = [ByteItem (word_of_int (byteOrder w))]"

definition writeInt :: "32 word \<Rightarrow> WKBItem list" where
  "writeInt val = [IntItem val]"

definition writeGeometryType :: "WKBWriter \<Rightarrow> 32 word \<Rightarrow> WKBItem list" where
  "writeGeometryType w typeId =
     (let flag3D = (if outputDimension w = 3 then 0x80000000 else 0);
          typeInt = or typeId flag3D
      in writeInt typeInt)"

text \<open>The ordinate indices of \<open>CoordinateSequence\<close> and its accessors.\<close>

datatype Ordinate = CoordinateSequence_X | CoordinateSequence_Y | CoordinateSequence_Z

definition getX :: "CoordinateSequence \<Rightarrow> nat \<Rightarrow> real" where
  "getX cs idx = x_ord (coords cs ! idx)"

definition getY :: "CoordinateSequence \<Rightarrow> nat \<Rightarrow> real" where
  "getY cs idx = y_ord (coords cs ! idx)"

fun getOrdinate :: "CoordinateSequence \<Rightarrow> nat \<Rightarrow> Ordinate \<Rightarrow> real" where
  "getOrdinate cs idx CoordinateSequence_X = x_ord (coords cs ! idx)"
| "getOrdinate cs idx CoordinateSequence_Y = y_ord (coords cs ! idx)"
| "getOrdinate cs idx CoordinateSequence_Z = z_ord (coords cs ! idx)"

text \<open>\<open>writeCoordinate\<close>: the third value is fetched with the index \<open>X\<close>.\<close>

definition writeCoordinate :: "WKBWriter \<Rightarrow> CoordinateSequence \<Rightarrow> nat \<Rightarrow> bool \<Rightarrow> WKBItem list" where
  "writeCoordinate w cs idx is3d =
     [DoubleItem (getX cs idx), DoubleItem (getY cs idx)]
     @ (if is3d then [DoubleItem (getOrdinate cs idx CoordinateSequence_X)] else [])"

text \<open>\<open>writeCoordinateSequence\<close>: indices run from 0 below the size, so in range.\<close>

definition writeCoordinateSequence :: "WKBWriter \<Rightarrow> CoordinateSequence \<Rightarrow> bool \<Rightarrow> WKBItem list" where
  "writeCoordinateSequence w cs sized =
     (let size = length (coords cs);
          is3d = (cs_dimension cs > 2 \<and> outputDimension w > 2)
      in (if sized then writeInt (word_of_nat size) else [])
         @ concat (map (\<lambda>i. writeCoordinate w cs i is3d) [0 ..< size]))"

definition writePoint :: "WKBWriter \<Rightarrow> CoordinateSequence \<Rightarrow> error + WKBItem list" where
  "writePoint w cs =
     (if isEmpty (Point cs) then Inl IllegalArgumentException
      else Inr (writeByteOrder w @ writeGeometryType w wkbPoint
                @ writeCoordinateSequence w cs False))"

definition writeLineString :: "WKBWriter \<Rightarrow> CoordinateSequence \<Rightarrow> WKBItem list" where
  "writeLineString w cs =
     writeByteOrder w @ writeGeometryType w wkbLineString @ writeCoordinateSequence w cs True"

definition writePolygon ::
  "WKBWriter \<Rightarrow> CoordinateSequence \<Rightarrow> CoordinateSequence list \<Rightarrow> WKBItem list" where
  "writePolygon w shell holes =
     (let nholes = length holes in
      writeByteOrder w @ writeGeometryType w wkbPolygon @ writeInt (word_of_nat (nholes + 1))
      @ writeCoordinateSequence w shell True
      @ concat (map (\<lambda>i. writeCoordinateSequence w (holes ! i) True) [0 ..< nholes]))"

text \<open>
  \<open>WKBWriter::write\<close> dispatches on the type id; \<open>writeGeometryCollection\<close>
  writes the header and then each member through \<open>write\<close>, in order. An exception thrown
  for a member ends the whole call (\<open>writeElements\<close> is the loop). What had
  been written to the stream before the exception is not kept in the model.
\<close>

fun WKBWriter_write :: "WKBWriter \<Rightarrow> Geometry \<Rightarrow> error + WKBItem list"
  and writeGeometryCollection :: "WKBWriter \<Rightarrow> Geometry list \<Rightarrow> 32 word \<Rightarrow> error + WKBItem list"
  and writeElements :: "WKBWriter \<Rightarrow> Geometry list \<Rightarrow> error + WKBItem list" where
  "WKBWriter_write w (Point cs) = writePoint w cs"
| "WKBWriter_write w (LineString cs) = Inr (writeLineString w cs)"
| "WKBWriter_write w (LinearRing cs) = Inr (writeLineString w cs)"
| "WKBWriter_write w (Polygon shell holes) = Inr (writePolygon w shell holes)"
| "WKBWriter_write w (MultiPoint gs) = writeGeometryCollection w gs wkbMultiPoint"
| "WKBWriter_write w (MultiLineString gs) = writeGeometryCollection w gs wkbMultiLineString"
| "WKBWriter_write w (MultiPolygon gs) = writeGeometryCollection w gs wkbMultiPolygon"
| "WKBWriter_write w (GeometryCollection gs) = writeGeometryCollection w gs wkbGeometryCollection"
| "writeGeometryCollection w gs wkbtype =
     (case writeElements w gs of
        Inl e \<Rightarrow> Inl e
      | Inr out \<Rightarrow> Inr (writeByteOrder w @ writeGeometryType w wkbtype
                        @ writeInt (word_of_nat (length gs)) @ out))"
| "writeElements w [] = Inr []"
| "writeElements w (elem # elems) =
     (case WKBWriter_write w elem of
        Inl e \<Rightarrow> Inl e
      | Inr out \<Rightarrow> (case writeElements w elems of
                      Inl e \<Rightarrow> Inl e
                    | Inr outs \<Rightarrow> Inr (out @ outs)))"

section \<open>Notions used to state the properties of the writer\<close>

fun containsEmptyPoint :: "Geometry \<Rightarrow> bool" where
  "containsEmptyPoint (Point cs) = (coords cs = [])"
| "containsEmptyPoint (LineString cs) = False"
| "containsEmptyPoint (LinearRing cs) = False"
| "containsEmptyPoint (Polygon shell holes) = False"
| "containsEmptyPoint (MultiPoint gs) = list_ex containsEmptyPoint gs"
| "containsEmptyPoint (MultiLineString gs) = list_ex containsEmptyPoint gs"
| "containsEmptyPoint (MultiPolygon gs) = list_ex containsEmptyPoint gs"
| "containsEmptyPoint (GeometryCollection gs) = list_ex containsEmptyPoint gs"

section \<open>Verified properties\<close>

subsection \<open>Zero-length line strings\<close>

lemma isZeroLength_loop_iff:
  "isZeroLength_loop line p0 i =
     (\<forall>j. i \<le> j \<and> j < getNumPoints line \<longrightarrow> equals2D p0 (getCoordinateN line j))"
proof (induction line p0 i rule: isZeroLength_loop.induct)
  case (1 line p0 i)
  show ?case
  proof (cases "i < getNumPoints line")
    case False
    then show ?thesis by (subst isZeroLength_loop.simps) auto
  next
    case True
    show ?thesis
    proof (cases "equals2D p0 (getCoordinateN line i)")
      case False
      with True show ?thesis by (subst isZeroLength_loop.simps) auto
    next
      case eq: True
      have "isZeroLength_loop line p0 i = isZeroLength_loop line p0 (i + 1)"
        using True eq by (subst isZeroLength_loop.simps) simp
      also have "\<dots> = (\<forall>j. i + 1 \<le> j \<and> j < getNumPoints line
                          \<longrightarrow> equals2D p0 (getCoordinateN line j))"
        using "1.IH" True eq by simp
      also have "\<dots> = (\<forall>j. i \<le> j \<and> j < getNumPoints line
                          \<longrightarrow> equals2D p0 (getCoordinateN line j))"
      proof
        assume h: "\<forall>j. i + 1 \<le> j \<and> j < getNumPoints line \<longrightarrow> equals2D p0 (getCoordinateN line j)"
        show "\<forall>j. i \<le> j \<and> j < getNumPoints line \<longrightarrow> equals2D p0 (getCoordinateN line j)"
        proof (intro allI impI)
          fix j assume j: "i \<le> j \<and> j < getNumPoints line"
          show "equals2D p0 (getCoordinateN line j)"
          proof (cases "j = i")
            case True then show ?thesis using eq by simp
          next
            case False then show ?thesis using h j by simp
          qed
        qed
      next
        assume "\<forall>j. i \<le> j \<and> j < getNumPoints line \<longrightarrow> equals2D p0 (getCoordinateN line j)"
        then show "\<forall>j. i + 1 \<le> j \<and> j < getNumPoints line \<longrightarrow> equals2D p0 (getCoordinateN line j)"
          by simp
      qed
      finally show ?thesis .
    qed
  qed
qed

lemma equals2D_refl: "equals2D p p"
  by (simp add: equals2D_def)

text \<open>
  Claim C1. For a line string with at least two points,
  \<open>isZeroLength(line)\<close> is true exactly when every vertex is 2D-equal to the
  first vertex (all vertices are inspected, not only the one at index 1); a line
  string with fewer than two points is reported zero-length.
\<close>

theorem isZeroLength_LineString_all_vertices:
  "(2 \<le> getNumPoints line \<longrightarrow>
      isZeroLength_LineString line =
        (\<forall>p \<in> set (coords line). equals2D (getCoordinateN line 0) p))
   \<and> (getNumPoints line < 2 \<longrightarrow> isZeroLength_LineString line)"
proof (intro conjI impI)
  assume n: "2 \<le> getNumPoints line"
  have "isZeroLength_LineString line =
          (\<forall>j. 1 \<le> j \<and> j < getNumPoints line \<longrightarrow> equals2D (getCoordinateN line 0) (getCoordinateN line j))"
    using n by (simp add: isZeroLength_LineString_def isZeroLength_loop_iff)
  also have "\<dots> = (\<forall>j < length (coords line). equals2D (getCoordinateN line 0) (coords line ! j))"
  proof -
    have "j = 0 \<or> 1 \<le> j" for j :: nat by arith
    then show ?thesis
      unfolding getNumPoints_def getCoordinateN_def
      by (metis equals2D_refl)
  qed
  also have "\<dots> = (\<forall>p \<in> set (coords line). equals2D (getCoordinateN line 0) p)"
    by (simp add: all_set_conv_all_nth)
  finally show "isZeroLength_LineString line =
        (\<forall>p \<in> set (coords line). equals2D (getCoordinateN line 0) p)" .
next
  assume "getNumPoints line < 2"
  then show "isZeroLength_LineString line"
    by (simp add: isZeroLength_LineString_def)
qed

theorem isZeroLength_LineString_all_vertices_witness:
  "2 \<le> getNumPoints (seq2 [xy 1 1, xy 1 1, xy 2 1])
   \<and> isZeroLength_LineString (seq2 [xy 1 1, xy 1 1, xy 2 1]) =
       (\<forall>p \<in> set (coords (seq2 [xy 1 1, xy 1 1, xy 2 1])).
          equals2D (getCoordinateN (seq2 [xy 1 1, xy 1 1, xy 2 1]) 0) p)
   \<and> getNumPoints (seq2 [xy 3 4]) < 2
   \<and> isZeroLength_LineString (seq2 [xy 3 4])"
proof -
  have a: "2 \<le> getNumPoints (seq2 [xy 1 1, xy 1 1, xy 2 1])"
    by (simp add: getNumPoints_def)
  have b: "getNumPoints (seq2 [xy 3 4]) < 2"
    by (simp add: getNumPoints_def)
  show ?thesis
    using a b
      isZeroLength_LineString_all_vertices [of "seq2 [xy 1 1, xy 1 1, xy 2 1]"]
      isZeroLength_LineString_all_vertices [of "seq2 [xy 3 4]"]
    by blast
qed

text \<open>
  Claim C2 asks that the geometry-level test, given a \<open>LineString\<close>, agree
  with the test on the line string itself. The code casts the \<open>LineString\<close>
  to a \<open>GeometryCollection\<close>: on \<open>LINESTRING (0 0, 1 1)\<close> the geometry-level
  test has no defined result, while the line string itself is not zero-length.
\<close>

theorem isZeroLength_Geometry_on_LineString:
  "isZeroLength (LineString (seq2 [xy 0 0, xy 1 1])) = Inl InvalidDowncast
   \<and> isZeroLength_LineString (seq2 [xy 0 0, xy 1 1]) = False"
proof -
  have "isZeroLength_loop (seq2 [xy 0 0, xy 1 1]) (xy 0 0) 1 = False"
    by (subst isZeroLength_loop.simps)
       (simp add: getNumPoints_def getCoordinateN_def equals2D_def)
  then show ?thesis
    by (simp add: isZeroLength_def isZeroLength_LineString_def
                  getNumPoints_def getCoordinateN_def)
qed

subsection \<open>Cached members\<close>

lemma analyzeDimensions_elem_cached:
  "isGeomEmpty (analyzeDimensions_elem e rg) = isGeomEmpty rg
   \<and> isLineZeroLen (analyzeDimensions_elem e rg) = isLineZeroLen rg
   \<and> geom (analyzeDimensions_elem e rg) = geom rg"
  by (simp add: analyzeDimensions_elem_def Let_def)

lemma fold_analyzeDimensions_elem_cached:
  "isGeomEmpty (fold analyzeDimensions_elem es rg) = isGeomEmpty rg
   \<and> isLineZeroLen (fold analyzeDimensions_elem es rg) = isLineZeroLen rg
   \<and> geom (fold analyzeDimensions_elem es rg) = geom rg"
  by (induction es arbitrary: rg) (simp_all add: analyzeDimensions_elem_cached)

lemma analyzeDimensions_cached:
  assumes "analyzeDimensions rg = Inr rg'"
  shows "isGeomEmpty rg' = isGeomEmpty rg \<and> isLineZeroLen rg' = isLineZeroLen rg
         \<and> geom rg' = geom rg"
  using assms
  by (auto simp: analyzeDimensions_def Let_def fold_analyzeDimensions_elem_cached
           split: if_splits sum.splits)

lemma RelateGeometry_new_cached:
  assumes "RelateGeometry_new input isPrepared bnRule = Inr rg"
  shows "isGeomEmpty rg = isEmpty input \<and> isZeroLength input = Inr (isLineZeroLen rg)
         \<and> geom rg = input"
proof -
  from assms obtain zl where zl: "isZeroLength input = Inr zl"
    and an: "analyzeDimensions (RelateGeometry_members input isPrepared bnRule zl) = Inr rg"
    by (auto simp: RelateGeometry_new_def split: sum.splits)
  from analyzeDimensions_cached [OF an] zl show ?thesis
    by (simp add: RelateGeometry_members_def)
qed

subsection \<open>Dimension analysis\<close>

lemma fold_max_lower: "d0 \<le> fold (\<lambda>g d. max d (f g)) gs (d0::int)"
proof (induction gs arbitrary: d0)
  case Nil
  show ?case by simp
next
  case (Cons g gs)
  have "d0 \<le> max d0 (f g)" by simp
  also have "\<dots> \<le> fold (\<lambda>g d. max d (f g)) gs (max d0 (f g))" by (rule Cons.IH)
  finally show ?case by simp
qed

lemma fold_max_member:
  "g \<in> set gs \<Longrightarrow> f g \<le> fold (\<lambda>g d. max d (f g)) gs (d0::int)"
proof (induction gs arbitrary: d0)
  case Nil
  then show ?case by simp
next
  case (Cons a gs)
  show ?case
  proof (cases "g = a")
    case True
    have "f a \<le> max d0 (f a)" by simp
    also have "\<dots> \<le> fold (\<lambda>g d. max d (f g)) gs (max d0 (f a))" by (rule fold_max_lower)
    finally show ?thesis using True by simp
  next
    case False
    with Cons.prems have "g \<in> set gs" by simp
    from Cons.IH [OF this] show ?thesis by simp
  qed
qed

lemma fold_max_const:
  assumes "\<forall>g \<in> set gs. f g = c" and "gs \<noteq> []" and "d0 \<le> c"
  shows "fold (\<lambda>g d. max d (f g)) gs (d0::int) = c"
  using assms
proof (induction gs arbitrary: d0)
  case Nil
  then show ?case by simp
next
  case (Cons a gs)
  show ?case
  proof (cases "gs = []")
    case True
    with Cons.prems show ?thesis by simp
  next
    case False
    have "fold (\<lambda>g d. max d (f g)) gs (max d0 (f a)) = c"
      using Cons.prems False by (intro Cons.IH) simp_all
    then show ?thesis by simp
  qed
qed

lemma getAllGeometries_atomic:
  "e \<in> set (getAllGeometries gs) \<Longrightarrow>
     getGeometryTypeId e = GEOS_POINT \<or> getGeometryTypeId e = GEOS_LINESTRING
     \<or> getGeometryTypeId e = GEOS_LINEARRING \<or> getGeometryTypeId e = GEOS_POLYGON"
  by (induction gs rule: getAllGeometries.induct) auto

lemma getAllGeometries_dimension_bound:
  "e \<in> set (getAllGeometries gs) \<Longrightarrow> \<exists>g \<in> set gs. getDimension e \<le> getDimension g"
proof (induction gs rule: getAllGeometries.induct)
  case 1
  then show ?case by simp
next
  case (2 cs gs) then show ?case by auto
next
  case (3 cs gs) then show ?case by auto
next
  case (4 cs gs) then show ?case by auto
next
  case (5 sh hs gs) then show ?case by auto
next
  case (6 ms gs)
  from "6.prems" consider "e \<in> set (getAllGeometries ms)" | "e \<in> set (getAllGeometries gs)"
    by auto
  then show ?case
  proof cases
    case 1
    from "6.IH"(1) [OF 1] obtain g where "g \<in> set ms" "getDimension e \<le> getDimension g" by blast
    then have "getDimension e \<le> getDimension (MultiPoint ms)"
      using fold_max_member [of g ms getDimension Dimension_False] by simp
    then show ?thesis by auto
  next
    case 2
    from "6.IH"(2) [OF 2] show ?thesis by auto
  qed
next
  case (7 ms gs)
  from "7.prems" consider "e \<in> set (getAllGeometries ms)" | "e \<in> set (getAllGeometries gs)"
    by auto
  then show ?case
  proof cases
    case 1
    from "7.IH"(1) [OF 1] obtain g where "g \<in> set ms" "getDimension e \<le> getDimension g" by blast
    then have "getDimension e \<le> getDimension (MultiLineString ms)"
      using fold_max_member [of g ms getDimension Dimension_False] by simp
    then show ?thesis by auto
  next
    case 2
    from "7.IH"(2) [OF 2] show ?thesis by auto
  qed
next
  case (8 ms gs)
  from "8.prems" consider "e \<in> set (getAllGeometries ms)" | "e \<in> set (getAllGeometries gs)"
    by auto
  then show ?case
  proof cases
    case 1
    from "8.IH"(1) [OF 1] obtain g where "g \<in> set ms" "getDimension e \<le> getDimension g" by blast
    then have "getDimension e \<le> getDimension (MultiPolygon ms)"
      using fold_max_member [of g ms getDimension Dimension_False] by simp
    then show ?thesis by auto
  next
    case 2
    from "8.IH"(2) [OF 2] show ?thesis by auto
  qed
next
  case (9 ms gs)
  from "9.prems" consider "e \<in> set (getAllGeometries ms)" | "e \<in> set (getAllGeometries gs)"
    by auto
  then show ?case
  proof cases
    case 1
    from "9.IH"(1) [OF 1] obtain g where "g \<in> set ms" "getDimension e \<le> getDimension g" by blast
    then have "getDimension e \<le> getDimension (GeometryCollection ms)"
      using fold_max_member [of g ms getDimension Dimension_False] by simp
    then show ?thesis by auto
  next
    case 2
    from "9.IH"(2) [OF 2] show ?thesis by auto
  qed
qed

lemma elements_dimension_le:
  assumes "e \<in> set (getAllGeometries gs)"
  shows "getDimension e \<le> fold (\<lambda>g d. max d (getDimension g)) gs Dimension_False"
proof -
  from getAllGeometries_dimension_bound [OF assms]
  obtain g where g: "g \<in> set gs" "getDimension e \<le> getDimension g" by blast
  from fold_max_member [OF g(1), of getDimension Dimension_False] g(2)
  show ?thesis by simp
qed
lemma analyzeDimensions_elem_flags:
  "hasPoints (analyzeDimensions_elem e rg) =
     (hasPoints rg \<or> (\<not> isEmpty e \<and> getGeometryTypeId e = GEOS_POINT))
   \<and> hasLines (analyzeDimensions_elem e rg) =
     (hasLines rg \<or> (\<not> isEmpty e \<and> getGeometryTypeId e = GEOS_LINESTRING))
   \<and> hasAreas (analyzeDimensions_elem e rg) =
     (hasAreas rg \<or> (\<not> isEmpty e \<and> getGeometryTypeId e = GEOS_POLYGON))"
  by (simp add: analyzeDimensions_elem_def Let_def)

lemma fold_analyzeDimensions_elem_flags:
  "hasPoints (fold analyzeDimensions_elem es rg) =
     (hasPoints rg \<or> (\<exists>e \<in> set es. \<not> isEmpty e \<and> getGeometryTypeId e = GEOS_POINT))
   \<and> hasLines (fold analyzeDimensions_elem es rg) =
     (hasLines rg \<or> (\<exists>e \<in> set es. \<not> isEmpty e \<and> getGeometryTypeId e = GEOS_LINESTRING))
   \<and> hasAreas (fold analyzeDimensions_elem es rg) =
     (hasAreas rg \<or> (\<exists>e \<in> set es. \<not> isEmpty e \<and> getGeometryTypeId e = GEOS_POLYGON))"
proof (induction es arbitrary: rg)
  case Nil
  show ?case by simp
next
  case (Cons a es)
  show ?case
    using Cons.IH [of "analyzeDimensions_elem a rg"] analyzeDimensions_elem_flags [of a rg]
    by (simp only: fold_simps set_simps bex_simps) blast
qed

lemma analyzeDimensions_elem_geomDim:
  assumes "getDimension e \<le> geomDim rg"
  shows "geomDim (analyzeDimensions_elem e rg) = geomDim rg"
  using assms
  by (cases e)
     (simp_all add: analyzeDimensions_elem_def Let_def Dimension_P_def Dimension_L_def
                    Dimension_A_def)

lemma fold_analyzeDimensions_elem_geomDim:
  assumes "\<forall>e \<in> set es. getDimension e \<le> geomDim rg"
  shows "geomDim (fold analyzeDimensions_elem es rg) = geomDim rg"
  using assms
proof (induction es arbitrary: rg)
  case Nil
  show ?case by simp
next
  case (Cons a es)
  have a: "geomDim (analyzeDimensions_elem a rg) = geomDim rg"
    using Cons.prems by (intro analyzeDimensions_elem_geomDim) simp
  have "geomDim (fold analyzeDimensions_elem es (analyzeDimensions_elem a rg))
          = geomDim (analyzeDimensions_elem a rg)"
    using Cons.prems a by (intro Cons.IH) simp
  with a show ?case by simp
qed

lemma atomic_dimension_type:
  assumes "getGeometryTypeId e = GEOS_POINT \<or> getGeometryTypeId e = GEOS_LINESTRING
     \<or> getGeometryTypeId e = GEOS_LINEARRING \<or> getGeometryTypeId e = GEOS_POLYGON"
  shows "(getDimension e = Dimension_P) = (getGeometryTypeId e = GEOS_POINT)
     \<and> (getDimension e = Dimension_L) =
         (getGeometryTypeId e = GEOS_LINESTRING \<or> getGeometryTypeId e = GEOS_LINEARRING)
     \<and> (getDimension e = Dimension_A) = (getGeometryTypeId e = GEOS_POLYGON)"
  using assms
  by (cases e) (simp_all add: Dimension_P_def Dimension_L_def Dimension_A_def)

lemma hasElementOfDimension_iff:
  "hasElementOfDimension g d =
     (\<exists>e \<in> set (elements g). \<not> isEmpty e \<and> getDimension e = d)"
  by (auto simp: hasElementOfDimension_def nonEmptyElements_def list_ex_iff)

lemma getAllGeometries_of_atomic:
  assumes "\<forall>g \<in> set gs. getGeometryTypeId g = GEOS_POINT \<or> getGeometryTypeId g = GEOS_LINESTRING
     \<or> getGeometryTypeId g = GEOS_LINEARRING \<or> getGeometryTypeId g = GEOS_POLYGON"
  shows "getAllGeometries gs = gs"
  using assms by (induction gs rule: getAllGeometries.induct) simp_all
lemma fold_max_le_iff:
  "(fold (\<lambda>g d. max d (f g)) gs (d0::int) \<le> b) = (d0 \<le> b \<and> (\<forall>g \<in> set gs. f g \<le> b))"
  by (induction gs arbitrary: d0) auto

lemma fold_max_init:
  "c \<le> d0 \<Longrightarrow> fold (\<lambda>g d. max d (f g)) gs (d0::int) = max d0 (fold (\<lambda>g d. max d (f g)) gs c)"
proof (induction gs arbitrary: d0 c)
  case Nil
  then show ?case by simp
next
  case (Cons a gs)
  have "fold (\<lambda>g d. max d (f g)) gs (max d0 (f a))
          = max (max d0 (f a)) (fold (\<lambda>g d. max d (f g)) gs (max c (f a)))"
    using Cons.prems by (intro Cons.IH) simp
  moreover have "f a \<le> fold (\<lambda>g d. max d (f g)) gs (max c (f a))"
    using fold_max_lower [of "max c (f a)" f gs] by simp
  ultimately show ?case by (simp add: max_def)
qed

lemma maxDimension_filter_le:
  "maxDimension (filter P es) \<le> maxDimension es"
  unfolding maxDimension_def
  by (simp add: fold_max_le_iff fold_max_lower fold_max_member)

lemma getDimension_fold_getAllGeometries:
  "Dimension_False \<le> d0 \<Longrightarrow>
     fold (\<lambda>g d. max d (getDimension g)) gs d0
       = fold (\<lambda>g d. max d (getDimension g)) (getAllGeometries gs) d0"
proof (induction gs arbitrary: d0 rule: getAllGeometries.induct)
  case 1
  show ?case by simp
next
  case (2 cs gs) then show ?case by simp
next
  case (3 cs gs) then show ?case by simp
next
  case (4 cs gs) then show ?case by simp
next
  case (5 sh hs gs) then show ?case by simp
next
  case (6 ms gs)
  have "max d0 (getDimension (MultiPoint ms))
          = fold (\<lambda>g d. max d (getDimension g)) (getAllGeometries ms) d0"
    using "6.IH"(1) [of Dimension_False] "6.prems"
          fold_max_init [of Dimension_False d0 getDimension "getAllGeometries ms"]
    by simp
  moreover have "Dimension_False \<le> max d0 (getDimension (MultiPoint ms))"
    using "6.prems" by simp
  ultimately show ?case using "6.IH"(2) by simp
next
  case (7 ms gs)
  have "max d0 (getDimension (MultiLineString ms))
          = fold (\<lambda>g d. max d (getDimension g)) (getAllGeometries ms) d0"
    using "7.IH"(1) [of Dimension_False] "7.prems"
          fold_max_init [of Dimension_False d0 getDimension "getAllGeometries ms"]
    by simp
  moreover have "Dimension_False \<le> max d0 (getDimension (MultiLineString ms))"
    using "7.prems" by simp
  ultimately show ?case using "7.IH"(2) by simp
next
  case (8 ms gs)
  have "max d0 (getDimension (MultiPolygon ms))
          = fold (\<lambda>g d. max d (getDimension g)) (getAllGeometries ms) d0"
    using "8.IH"(1) [of Dimension_False] "8.prems"
          fold_max_init [of Dimension_False d0 getDimension "getAllGeometries ms"]
    by simp
  moreover have "Dimension_False \<le> max d0 (getDimension (MultiPolygon ms))"
    using "8.prems" by simp
  ultimately show ?case using "8.IH"(2) by simp
next
  case (9 ms gs)
  have "max d0 (getDimension (GeometryCollection ms))
          = fold (\<lambda>g d. max d (getDimension g)) (getAllGeometries ms) d0"
    using "9.IH"(1) [of Dimension_False] "9.prems"
          fold_max_init [of Dimension_False d0 getDimension "getAllGeometries ms"]
    by simp
  moreover have "Dimension_False \<le> max d0 (getDimension (GeometryCollection ms))"
    using "9.prems" by simp
  ultimately show ?case using "9.IH"(2) by simp
qed

lemma getDimension_maxDimension_elements:
  "getDimension g = maxDimension (elements g)"
proof (cases g)
  case (Point cs)
  then show ?thesis
    by (simp add: elements_def maxDimension_def Dimension_False_def Dimension_P_def)
next
  case (LineString cs)
  then show ?thesis
    by (simp add: elements_def maxDimension_def Dimension_False_def Dimension_L_def)
next
  case (LinearRing cs)
  then show ?thesis
    by (simp add: elements_def maxDimension_def Dimension_False_def Dimension_L_def)
next
  case (Polygon sh hs)
  then show ?thesis
    by (simp add: elements_def maxDimension_def Dimension_False_def Dimension_A_def)
next
  case (MultiPoint gs)
  then show ?thesis
    using getDimension_fold_getAllGeometries [of Dimension_False gs]
    by (simp add: elements_def maxDimension_def)
next
  case (MultiLineString gs)
  then show ?thesis
    using getDimension_fold_getAllGeometries [of Dimension_False gs]
    by (simp add: elements_def maxDimension_def)
next
  case (MultiPolygon gs)
  then show ?thesis
    using getDimension_fold_getAllGeometries [of Dimension_False gs]
    by (simp add: elements_def maxDimension_def)
next
  case (GeometryCollection gs)
  then show ?thesis
    using getDimension_fold_getAllGeometries [of Dimension_False gs]
    by (simp add: elements_def maxDimension_def)
qed
lemma analyzeDimensions_homogeneous:
  assumes gs: "\<forall>g \<in> set gs. getGeometryTypeId g = t" "\<not> list_all isEmpty gs"
    and t: "t = GEOS_POINT \<or> t = GEOS_LINESTRING \<or> t = GEOS_POLYGON"
    and el: "elements input = gs"
  shows "hasElementOfDimension input Dimension_P = (t = GEOS_POINT)
     \<and> hasElementOfDimension input Dimension_L = (t = GEOS_LINESTRING)
     \<and> hasElementOfDimension input Dimension_A = (t = GEOS_POLYGON)
     \<and> maxDimension (elements input) =
          (if t = GEOS_POINT then Dimension_P
           else if t = GEOS_LINESTRING then Dimension_L else Dimension_A)"
proof -
  from gs(2) obtain e where e: "e \<in> set gs" "\<not> isEmpty e"
    by (auto simp: list_all_iff)
  have at: "\<forall>g \<in> set gs. getGeometryTypeId g = GEOS_POINT \<or> getGeometryTypeId g = GEOS_LINESTRING
     \<or> getGeometryTypeId g = GEOS_LINEARRING \<or> getGeometryTypeId g = GEOS_POLYGON"
    using gs(1) t by auto
  have dim: "\<forall>g \<in> set gs. (getDimension g = Dimension_P) = (t = GEOS_POINT)
     \<and> (getDimension g = Dimension_L) = (t = GEOS_LINESTRING)
     \<and> (getDimension g = Dimension_A) = (t = GEOS_POLYGON)"
  proof
    fix g assume g: "g \<in> set gs"
    with at have "getGeometryTypeId g = GEOS_POINT \<or> getGeometryTypeId g = GEOS_LINESTRING
     \<or> getGeometryTypeId g = GEOS_LINEARRING \<or> getGeometryTypeId g = GEOS_POLYGON" by blast
    from atomic_dimension_type [OF this] gs(1) g t
    show "(getDimension g = Dimension_P) = (t = GEOS_POINT)
     \<and> (getDimension g = Dimension_L) = (t = GEOS_LINESTRING)
     \<and> (getDimension g = Dimension_A) = (t = GEOS_POLYGON)" by auto
  qed
  have p: "hasElementOfDimension input Dimension_P = (t = GEOS_POINT)"
    unfolding hasElementOfDimension_iff el using dim e by blast
  have l: "hasElementOfDimension input Dimension_L = (t = GEOS_LINESTRING)"
    unfolding hasElementOfDimension_iff el using dim e by blast
  have a: "hasElementOfDimension input Dimension_A = (t = GEOS_POLYGON)"
    unfolding hasElementOfDimension_iff el using dim e by blast
  let ?c = "if t = GEOS_POINT then Dimension_P
            else if t = GEOS_LINESTRING then Dimension_L else Dimension_A"
  have "\<forall>g \<in> set gs. getDimension g = ?c"
    using dim t by auto
  moreover have "gs \<noteq> []" using e by auto
  moreover have "Dimension_False \<le> ?c"
    by (simp add: Dimension_False_def Dimension_P_def Dimension_L_def Dimension_A_def)
  ultimately have "fold (\<lambda>g d. max d (getDimension g)) gs Dimension_False = ?c"
    by (rule fold_max_const)
  then have m: "maxDimension (elements input) = ?c"
    by (simp add: maxDimension_def el)
  from p l a m show ?thesis by blast
qed

lemma analyzeDimensions_collection:
  assumes nr: "\<not> hasLinearRingElement (GeometryCollection gs)"
  shows "\<exists>rg. analyzeDimensions
              (RelateGeometry_members (GeometryCollection gs) isPrepared bnRule zl) = Inr rg
     \<and> hasPoints rg = hasElementOfDimension (GeometryCollection gs) Dimension_P
     \<and> hasLines rg = hasElementOfDimension (GeometryCollection gs) Dimension_L
     \<and> hasAreas rg = hasElementOfDimension (GeometryCollection gs) Dimension_A
     \<and> geomDim rg = maxDimension (elements (GeometryCollection gs))"
proof (cases "isEmpty (GeometryCollection gs)")
  case True
  let ?ini = "RelateGeometry_members (GeometryCollection gs) isPrepared bnRule zl"
  have el: "elements (GeometryCollection gs) = getAllGeometries gs"
    by (simp add: elements_def)
  have emp: "\<forall>e \<in> set (getAllGeometries gs). isEmpty e"
  proof -
    have "list_all isEmpty ms \<Longrightarrow> \<forall>e \<in> set (getAllGeometries ms). isEmpty e" for ms
      by (induction ms rule: getAllGeometries.induct) auto
    with True show ?thesis by simp
  qed
  have "analyzeDimensions ?ini = Inr ?ini"
    using True by (simp add: analyzeDimensions_def RelateGeometry_members_def)
  moreover have "\<not> hasElementOfDimension (GeometryCollection gs) d" for d
    unfolding hasElementOfDimension_iff el using emp by blast
  moreover have "geomDim ?ini = maxDimension (elements (GeometryCollection gs))"
    using getDimension_maxDimension_elements [of "GeometryCollection gs"]
    by (simp add: RelateGeometry_members_def)
  moreover have "\<not> hasPoints ?ini \<and> \<not> hasLines ?ini \<and> \<not> hasAreas ?ini"
    by (simp add: RelateGeometry_members_def)
  ultimately show ?thesis by blast
next
  case False
  let ?ini = "RelateGeometry_members (GeometryCollection gs) isPrepared bnRule zl"
  let ?es = "getAllGeometries gs"
  let ?res = "fold analyzeDimensions_elem ?es ?ini"
  have el: "elements (GeometryCollection gs) = ?es"
    by (simp add: elements_def)
  have run: "analyzeDimensions ?ini = Inr ?res"
    using False by (simp add: analyzeDimensions_def RelateGeometry_members_def)
  have init: "\<not> hasPoints ?ini" "\<not> hasLines ?ini" "\<not> hasAreas ?ini"
             "geomDim ?ini = getDimension (GeometryCollection gs)"
    by (simp_all add: RelateGeometry_members_def)
  have noring: "\<forall>e \<in> set ?es. getGeometryTypeId e \<noteq> GEOS_LINEARRING"
    using nr by (auto simp: hasLinearRingElement_def el list_ex_iff)
  have types: "\<forall>e \<in> set ?es. (getDimension e = Dimension_P) = (getGeometryTypeId e = GEOS_POINT)
     \<and> (getDimension e = Dimension_L) = (getGeometryTypeId e = GEOS_LINESTRING)
     \<and> (getDimension e = Dimension_A) = (getGeometryTypeId e = GEOS_POLYGON)"
  proof
    fix e assume e: "e \<in> set ?es"
    from atomic_dimension_type [OF getAllGeometries_atomic [OF e]] noring e
    show "(getDimension e = Dimension_P) = (getGeometryTypeId e = GEOS_POINT)
     \<and> (getDimension e = Dimension_L) = (getGeometryTypeId e = GEOS_LINESTRING)
     \<and> (getDimension e = Dimension_A) = (getGeometryTypeId e = GEOS_POLYGON)" by blast
  qed
  have p: "hasPoints ?res = hasElementOfDimension (GeometryCollection gs) Dimension_P"
    unfolding hasElementOfDimension_iff el
    using fold_analyzeDimensions_elem_flags [of ?es ?ini] init(1) types by blast
  have l: "hasLines ?res = hasElementOfDimension (GeometryCollection gs) Dimension_L"
    unfolding hasElementOfDimension_iff el
    using fold_analyzeDimensions_elem_flags [of ?es ?ini] init(2) types by blast
  have a: "hasAreas ?res = hasElementOfDimension (GeometryCollection gs) Dimension_A"
    unfolding hasElementOfDimension_iff el
    using fold_analyzeDimensions_elem_flags [of ?es ?ini] init(3) types by blast
  have "\<forall>e \<in> set ?es. getDimension e \<le> geomDim ?ini"
    using elements_dimension_le [of _ gs] init(4) by simp
  then have "geomDim ?res = geomDim ?ini"
    by (rule fold_analyzeDimensions_elem_geomDim)
  then have d: "geomDim ?res = maxDimension (elements (GeometryCollection gs))"
    using init(4) getDimension_maxDimension_elements [of "GeometryCollection gs"] by simp
  from run p l a d show ?thesis by blast
qed
lemma analyzeDimensions_by_type:
  assumes ne: "\<not> isEmpty input"
    and ty: "getGeometryTypeId input \<noteq> GEOS_GEOMETRYCOLLECTION"
            "getGeometryTypeId input \<noteq> GEOS_LINEARRING"
    and el: "\<forall>g \<in> set (elements input). getGeometryTypeId g = t"
            "\<not> list_all isEmpty (elements input)"
    and t: "t = (if getGeometryTypeId input = GEOS_POINT \<or> getGeometryTypeId input = GEOS_MULTIPOINT
                 then GEOS_POINT
                 else if getGeometryTypeId input = GEOS_LINESTRING
                       \<or> getGeometryTypeId input = GEOS_MULTILINESTRING
                 then GEOS_LINESTRING else GEOS_POLYGON)"
  shows "\<exists>rg. analyzeDimensions (RelateGeometry_members input isPrepared bnRule zl) = Inr rg
     \<and> hasPoints rg = hasElementOfDimension input Dimension_P
     \<and> hasLines rg = hasElementOfDimension input Dimension_L
     \<and> hasAreas rg = hasElementOfDimension input Dimension_A
     \<and> geomDim rg = maxDimension (elements input)"
proof -
  let ?ini = "RelateGeometry_members input isPrepared bnRule zl"
  have t3: "t = GEOS_POINT \<or> t = GEOS_LINESTRING \<or> t = GEOS_POLYGON"
    using t by auto
  note h = analyzeDimensions_homogeneous [OF el t3 refl]
  have ini: "\<not> isGeomEmpty ?ini" "geom ?ini = input"
    "\<not> hasPoints ?ini" "\<not> hasLines ?ini" "\<not> hasAreas ?ini"
    using ne by (simp_all add: RelateGeometry_members_def)
  consider (p) "getGeometryTypeId input = GEOS_POINT \<or> getGeometryTypeId input = GEOS_MULTIPOINT"
    | (l) "getGeometryTypeId input = GEOS_LINESTRING \<or> getGeometryTypeId input = GEOS_MULTILINESTRING"
    | (a) "getGeometryTypeId input = GEOS_POLYGON \<or> getGeometryTypeId input = GEOS_MULTIPOLYGON"
    using ty by (cases input) simp_all
  then show ?thesis
  proof cases
    case p
    then have "analyzeDimensions ?ini = Inr (?ini\<lparr>hasPoints := True, geomDim := Dimension_P\<rparr>)"
      using ini by (simp add: analyzeDimensions_def)
    moreover have "t = GEOS_POINT" using t p by simp
    ultimately show ?thesis using h ini by simp
  next
    case l
    then have "analyzeDimensions ?ini = Inr (?ini\<lparr>hasLines := True, geomDim := Dimension_L\<rparr>)"
      using ini by (auto simp: analyzeDimensions_def)
    moreover have "t = GEOS_LINESTRING" using t l by auto
    ultimately show ?thesis using h ini by simp
  next
    case a
    then have "analyzeDimensions ?ini = Inr (?ini\<lparr>hasAreas := True, geomDim := Dimension_A\<rparr>)"
      using ini by (auto simp: analyzeDimensions_def)
    moreover have "t = GEOS_POLYGON" using t a by auto
    ultimately show ?thesis using h ini by simp
  qed
qed

lemma elements_homogeneous:
  assumes "list_all (\<lambda>g. getGeometryTypeId g = t) gs"
    and "t = GEOS_POINT \<or> t = GEOS_LINESTRING \<or> t = GEOS_POLYGON"
  shows "getAllGeometries gs = gs"
  using assms by (intro getAllGeometries_of_atomic) (auto simp: list_all_iff)

text \<open>
  Claim C4, as the code has it. For a non-empty, well-formed input with no
  \<open>LinearRing\<close> among its elements, \<open>analyzeDimensions\<close>, run by the
  constructor on the freshly initialised members, succeeds and sets
  \<open>hasPoints\<close>, \<open>hasLines\<close>, \<open>hasAreas\<close> to whether the input contains a
  non-empty element of dimension P, L, A (recursing into collections and skipping
  empty elements). \<open>geomDim\<close> is the maximum dimension over all elements of the
  input, the empty ones included, which is at least the maximum over the
  non-empty ones.
\<close>

theorem analyzeDimensions_flags_and_dimension:
  assumes wf: "wellFormed input" and ne: "\<not> isEmpty input"
    and nr: "\<not> hasLinearRingElement input"
  shows "\<exists>rg. analyzeDimensions (RelateGeometry_members input isPrepared bnRule zl) = Inr rg
     \<and> hasPoints rg = hasElementOfDimension input Dimension_P
     \<and> hasLines rg = hasElementOfDimension input Dimension_L
     \<and> hasAreas rg = hasElementOfDimension input Dimension_A
     \<and> geomDim rg = maxDimension (elements input)
     \<and> maxDimension (nonEmptyElements input) \<le> geomDim rg"
proof -
  have le: "maxDimension (nonEmptyElements input) \<le> maxDimension (elements input)"
    unfolding nonEmptyElements_def by (rule maxDimension_filter_le)
  have "\<exists>rg. analyzeDimensions (RelateGeometry_members input isPrepared bnRule zl) = Inr rg
     \<and> hasPoints rg = hasElementOfDimension input Dimension_P
     \<and> hasLines rg = hasElementOfDimension input Dimension_L
     \<and> hasAreas rg = hasElementOfDimension input Dimension_A
     \<and> geomDim rg = maxDimension (elements input)"
  proof (cases input)
    case (Point cs)
    then have "elements input = [input]" by (simp add: elements_def)
    with Point ne show ?thesis
      by (intro analyzeDimensions_by_type [where t = GEOS_POINT]) simp_all
  next
    case (LineString cs)
    then have "elements input = [input]" by (simp add: elements_def)
    with LineString ne show ?thesis
      by (intro analyzeDimensions_by_type [where t = GEOS_LINESTRING]) simp_all
  next
    case (LinearRing cs)
    then have "hasLinearRingElement input"
      by (simp add: hasLinearRingElement_def elements_def)
    with nr show ?thesis by simp
  next
    case (Polygon sh hs)
    then have "elements input = [input]" by (simp add: elements_def)
    with Polygon ne show ?thesis
      by (intro analyzeDimensions_by_type [where t = GEOS_POLYGON]) simp_all
  next
    case (MultiPoint gs)
    with wf have "elements input = gs"
      using elements_homogeneous [of GEOS_POINT gs] by (simp add: elements_def)
    with MultiPoint ne wf show ?thesis
      by (intro analyzeDimensions_by_type [where t = GEOS_POINT])
         (simp_all add: list_all_iff)
  next
    case (MultiLineString gs)
    with wf have "elements input = gs"
      using elements_homogeneous [of GEOS_LINESTRING gs] by (simp add: elements_def)
    with MultiLineString ne wf show ?thesis
      by (intro analyzeDimensions_by_type [where t = GEOS_LINESTRING])
         (simp_all add: list_all_iff)
  next
    case (MultiPolygon gs)
    with wf have "elements input = gs"
      using elements_homogeneous [of GEOS_POLYGON gs] by (simp add: elements_def)
    with MultiPolygon ne wf show ?thesis
      by (intro analyzeDimensions_by_type [where t = GEOS_POLYGON])
         (simp_all add: list_all_iff)
  next
    case (GeometryCollection gs)
    with nr show ?thesis
      using analyzeDimensions_collection [of gs isPrepared bnRule zl] by simp
  qed
  with le show ?thesis by auto
qed
theorem analyzeDimensions_flags_and_dimension_witness:
  "wellFormed (GeometryCollection [Point (seq2 [xy 1 1]), LineString (seq2 []),
                 MultiPolygon [Polygon (seq2 [xy 0 0, xy 4 0, xy 4 4, xy 0 0]) []]])
   \<and> \<not> isEmpty (GeometryCollection [Point (seq2 [xy 1 1]), LineString (seq2 []),
                 MultiPolygon [Polygon (seq2 [xy 0 0, xy 4 0, xy 4 4, xy 0 0]) []]])
   \<and> \<not> hasLinearRingElement (GeometryCollection [Point (seq2 [xy 1 1]), LineString (seq2 []),
                 MultiPolygon [Polygon (seq2 [xy 0 0, xy 4 0, xy 4 4, xy 0 0]) []]])
   \<and> (\<exists>rg. analyzeDimensions (RelateGeometry_members
                (GeometryCollection [Point (seq2 [xy 1 1]), LineString (seq2 []),
                   MultiPolygon [Polygon (seq2 [xy 0 0, xy 4 0, xy 4 4, xy 0 0]) []]])
                False Mod2 True) = Inr rg
          \<and> hasPoints rg \<and> \<not> hasLines rg \<and> hasAreas rg \<and> geomDim rg = 2)"
proof -
  let ?X = "GeometryCollection [Point (seq2 [xy 1 1]), LineString (seq2 []),
                 MultiPolygon [Polygon (seq2 [xy 0 0, xy 4 0, xy 4 4, xy 0 0]) []]]"
  have wf: "wellFormed ?X" by simp
  have ne: "\<not> isEmpty ?X" by simp
  have nr: "\<not> hasLinearRingElement ?X"
    by (simp add: hasLinearRingElement_def elements_def)
  have p: "hasElementOfDimension ?X Dimension_P"
    by (simp add: hasElementOfDimension_def nonEmptyElements_def elements_def Dimension_P_def)
  have l: "\<not> hasElementOfDimension ?X Dimension_L"
    by (simp add: hasElementOfDimension_def nonEmptyElements_def elements_def
                  Dimension_P_def Dimension_L_def Dimension_A_def)
  have a: "hasElementOfDimension ?X Dimension_A"
    by (simp add: hasElementOfDimension_def nonEmptyElements_def elements_def Dimension_A_def)
  have m: "maxDimension (elements ?X) = 2"
    by (simp add: maxDimension_def elements_def Dimension_False_def
                  Dimension_P_def Dimension_L_def Dimension_A_def)
  from analyzeDimensions_flags_and_dimension [OF wf ne nr, of False Mod2 True] p l a m wf ne nr
  show ?thesis by auto
qed

text \<open>
  Claim C4 as stated fails on
  \<open>GEOMETRYCOLLECTION (POINT (1 1), LINESTRING EMPTY)\<close>: the only non-empty
  element has dimension P (0), but \<open>geomDim\<close> keeps the value L (1) it was
  initialised with from \<open>input->getDimension()\<close>.
\<close>

theorem analyzeDimensions_geomDim_counterexample:
  "\<not> isEmpty (GeometryCollection [Point (seq2 [xy 1 1]), LineString (seq2 [])])
   \<and> map_sum id geomDim
        (RelateGeometry_new (GeometryCollection [Point (seq2 [xy 1 1]), LineString (seq2 [])])
           False Mod2) = Inr 1
   \<and> maxDimension
        (nonEmptyElements (GeometryCollection [Point (seq2 [xy 1 1]), LineString (seq2 [])])) = 0"
  by (simp add: RelateGeometry_new_def isZeroLength_def isZeroLength_LineString_def
                getNumPoints_def analyzeDimensions_def RelateGeometry_members_def
                analyzeDimensions_elem_def maxDimension_def nonEmptyElements_def
                elements_def Dimension_False_def Dimension_P_def Dimension_L_def
                Dimension_A_def)

subsection \<open>The real dimension of a geometry\<close>

lemma isZeroLength_LineString_zeroLengthLine:
  "isZeroLength_LineString cs = zeroLengthLine cs"
proof (cases "coords cs")
  case Nil
  then show ?thesis
    by (simp add: isZeroLength_LineString_def zeroLengthLine_def getNumPoints_def)
next
  case (Cons p0 ps)
  show ?thesis
  proof (cases ps)
    case Nil
    with Cons show ?thesis
      by (simp add: isZeroLength_LineString_def zeroLengthLine_def getNumPoints_def)
  next
    case (Cons p1 qs)
    have n: "2 \<le> getNumPoints cs"
      using \<open>coords cs = p0 # ps\<close> Cons by (simp add: getNumPoints_def)
    have "isZeroLength_LineString cs =
            (\<forall>j. 1 \<le> j \<and> j < Suc (length ps) \<longrightarrow> equals2D p0 ((p0 # ps) ! j))"
      using n \<open>coords cs = p0 # ps\<close>
      by (simp add: isZeroLength_LineString_def isZeroLength_loop_iff getNumPoints_def
                    getCoordinateN_def)
    also have "\<dots> = (\<forall>k < length ps. equals2D p0 (ps ! k))"
    proof
      assume h: "\<forall>j. 1 \<le> j \<and> j < Suc (length ps) \<longrightarrow> equals2D p0 ((p0 # ps) ! j)"
      show "\<forall>k < length ps. equals2D p0 (ps ! k)"
      proof (intro allI impI)
        fix k assume "k < length ps"
        with h [rule_format, of "Suc k"] show "equals2D p0 (ps ! k)" by simp
      qed
    next
      assume h: "\<forall>k < length ps. equals2D p0 (ps ! k)"
      show "\<forall>j. 1 \<le> j \<and> j < Suc (length ps) \<longrightarrow> equals2D p0 ((p0 # ps) ! j)"
      proof (intro allI impI)
        fix j assume j: "1 \<le> j \<and> j < Suc (length ps)"
        then obtain k where "j = Suc k" "k < length ps" by (cases j) auto
        with h show "equals2D p0 ((p0 # ps) ! j)" by simp
      qed
    qed
    also have "\<dots> = list_all (equals2D p0) ps"
      by (simp add: list_all_iff all_set_conv_all_nth)
    finally show ?thesis
      using \<open>coords cs = p0 # ps\<close> by (simp add: zeroLengthLine_def)
  qed
qed

lemma isZeroLength_elems_no_ring:
  assumes "\<forall>e \<in> set es. getGeometryTypeId e \<noteq> GEOS_LINEARRING"
  shows "isZeroLength_elems es = list_all isZeroLengthElement es"
  using assms
proof (induction es rule: isZeroLength_elems.induct)
  case 1
  show ?case by simp
next
  case (2 cs elems)
  then show ?case by (simp add: isZeroLength_LineString_zeroLengthLine)
qed simp_all

lemma analyzeDimensions_of_collection:
  assumes col: "as_GeometryCollection input = Inr gs"
    and wf: "wellFormed input" and ne: "\<not> isEmpty input"
    and nr: "\<not> hasLinearRingElement input"
  shows "\<exists>rg. analyzeDimensions (RelateGeometry_members input isPrepared bnRule zl) = Inr rg
     \<and> hasPoints rg = hasElementOfDimension input Dimension_P
     \<and> hasLines rg = hasElementOfDimension input Dimension_L
     \<and> hasAreas rg = hasElementOfDimension input Dimension_A
     \<and> geomDim rg = maxDimension (elements input)"
proof (cases input)
  case (MultiPoint ms)
  with wf have "elements input = ms"
    using elements_homogeneous [of GEOS_POINT ms] by (simp add: elements_def)
  with MultiPoint ne wf show ?thesis
    by (intro analyzeDimensions_by_type [where t = GEOS_POINT])
       (simp_all add: list_all_iff)
next
  case (MultiLineString ms)
  with wf have "elements input = ms"
    using elements_homogeneous [of GEOS_LINESTRING ms] by (simp add: elements_def)
  with MultiLineString ne wf show ?thesis
    by (intro analyzeDimensions_by_type [where t = GEOS_LINESTRING])
       (simp_all add: list_all_iff)
next
  case (MultiPolygon ms)
  with wf have "elements input = ms"
    using elements_homogeneous [of GEOS_POLYGON ms] by (simp add: elements_def)
  with MultiPolygon ne wf show ?thesis
    by (intro analyzeDimensions_by_type [where t = GEOS_POLYGON])
       (simp_all add: list_all_iff)
next
  case (GeometryCollection ms)
  with nr show ?thesis
    using analyzeDimensions_collection [of ms isPrepared bnRule zl] by simp
qed (use col in simp_all)

text \<open>
  On inputs with no \<open>LinearRing\<close> element the real dimension follows the
  geometry: for an object the constructor returns, \<open>getDimensionReal\<close> is
  \<open>False\<close> for an empty input; \<open>P\<close> when the maximum dimension over all
  elements is \<open>L\<close> and every line is zero-length; otherwise \<open>A\<close> if the
  input has a non-empty area element, else \<open>L\<close> if it has a non-empty line
  element, else \<open>P\<close>.
\<close>

lemma getDimensionReal_of_geometry:
  assumes new: "RelateGeometry_new input isPrepared bnRule = Inr rg"
    and wf: "wellFormed input" and nr: "\<not> hasLinearRingElement input"
  shows "getDimensionReal rg =
     (if isEmpty input then - 1
      else if maxDimension (elements input) = 1 \<and> allLinesZeroLength input then 0
      else if hasElementOfDimension input Dimension_A then 2
      else if hasElementOfDimension input Dimension_L then 1
      else 0)"
proof -
  from new obtain zl where zl: "isZeroLength input = Inr zl"
    and an: "analyzeDimensions (RelateGeometry_members input isPrepared bnRule zl) = Inr rg"
    by (auto simp: RelateGeometry_new_def split: sum.splits)
  from zl obtain gs where col: "as_GeometryCollection input = Inr gs"
    and zl_eq: "zl = isZeroLength_elems (getAllGeometries gs)"
    by (auto simp: isZeroLength_def split: sum.splits)
  have el: "elements input = getAllGeometries gs"
    using col by (simp add: elements_def)
  have "\<forall>e \<in> set (elements input). getGeometryTypeId e \<noteq> GEOS_LINEARRING"
    using nr by (auto simp: hasLinearRingElement_def list_ex_iff)
  then have zl_geom: "zl = allLinesZeroLength input"
    unfolding zl_eq allLinesZeroLength_def el by (rule isZeroLength_elems_no_ring)
  note cached = analyzeDimensions_cached [OF an]
  have emp: "isGeomEmpty rg = isEmpty input" and z: "isLineZeroLen rg = zl"
    using cached by (simp_all add: RelateGeometry_members_def)
  show ?thesis
  proof (cases "isEmpty input")
    case True
    with emp show ?thesis
      by (simp add: getDimensionReal_def Dimension_False_def)
  next
    case False
    from analyzeDimensions_of_collection [OF col wf False nr, of isPrepared bnRule zl] an
    have "hasLines rg = hasElementOfDimension input Dimension_L"
      "hasAreas rg = hasElementOfDimension input Dimension_A"
      "geomDim rg = maxDimension (elements input)" by auto
    with False emp z zl_geom show ?thesis
      by (simp add: getDimensionReal_def RelateGeometry_getDimension_def
                    Dimension_P_def Dimension_L_def Dimension_A_def)
  qed
qed

text \<open>
  Claim C3 asks that \<open>getDimensionReal\<close> return \<open>L\<close> for a non-empty
  geometry with line elements and no area elements, unless its lines are
  zero-length. On \<open>GEOMETRYCOLLECTION (LINEARRING (0 0, 1 0, 1 1, 0 0))\<close> the
  constructor succeeds, the only element is a non-empty line of dimension
  \<open>L\<close> that is not zero-length, and \<open>getDimensionReal\<close> returns \<open>P\<close> (0):
  the zero-length test and the dimension analysis compare the type of an
  element with \<open>GEOS_LINESTRING\<close> only, so the ring is seen by neither.
\<close>

theorem getDimensionReal_LinearRing_element:
  "RelateGeometry_new
     (GeometryCollection [LinearRing (seq2 [xy 0 0, xy 1 0, xy 1 1, xy 0 0])]) False Mod2
   = Inr (RelateGeometry_members
            (GeometryCollection [LinearRing (seq2 [xy 0 0, xy 1 0, xy 1 1, xy 0 0])])
            False Mod2 True)
   \<and> getDimensionReal
        (RelateGeometry_members
           (GeometryCollection [LinearRing (seq2 [xy 0 0, xy 1 0, xy 1 1, xy 0 0])])
           False Mod2 True) = 0
   \<and> isEmpty (GeometryCollection [LinearRing (seq2 [xy 0 0, xy 1 0, xy 1 1, xy 0 0])]) = False
   \<and> hasElementOfDimension
        (GeometryCollection [LinearRing (seq2 [xy 0 0, xy 1 0, xy 1 1, xy 0 0])]) Dimension_L
       = True
   \<and> hasElementOfDimension
        (GeometryCollection [LinearRing (seq2 [xy 0 0, xy 1 0, xy 1 1, xy 0 0])]) Dimension_A
       = False
   \<and> allLinesZeroLength
        (GeometryCollection [LinearRing (seq2 [xy 0 0, xy 1 0, xy 1 1, xy 0 0])]) = False"
  by (simp add: RelateGeometry_new_def isZeroLength_def analyzeDimensions_def
                analyzeDimensions_elem_def RelateGeometry_members_def getDimensionReal_def
                RelateGeometry_getDimension_def hasElementOfDimension_def
                nonEmptyElements_def elements_def allLinesZeroLength_def zeroLengthLine_def
                equals2D_def Dimension_False_def Dimension_P_def Dimension_L_def
                Dimension_A_def)

subsection \<open>Segment string extraction\<close>

lemma extractRingToSegmentString_eq:
  "extractRingToSegmentString isect isA ring rid env pp st =
     (fst st, snd st @ (if isExtracted isect env (LinearRing ring)
                        then [createRing ring isA (elementId (fst st)) rid pp] else []))"
  by (cases env) (simp_all add: extractRingToSegmentString_def isExtracted_def)

lemma fold_extractRingToSegmentString:
  "fold (\<lambda>i. extractRingToSegmentString isect isA (rs i) (rid i) env pp) js st =
     (fst st, snd st @ map (\<lambda>i. createRing (rs i) isA (elementId (fst st)) (rid i) pp)
                          (filter (\<lambda>i. isExtracted isect env (LinearRing (rs i))) js))"
proof (induction js arbitrary: st)
  case Nil
  show ?case by simp
next
  case (Cons j js)
  let ?F = "\<lambda>i. extractRingToSegmentString isect isA (rs i) (rid i) env pp"
  have "fold ?F (j # js) st = fold ?F js (?F j st)" by simp
  also have "\<dots> = (fst (?F j st),
       snd (?F j st) @ map (\<lambda>i. createRing (rs i) isA (elementId (fst (?F j st))) (rid i) pp)
                          (filter (\<lambda>i. isExtracted isect env (LinearRing (rs i))) js))"
    by (rule Cons.IH)
  also have "\<dots> = (fst st, snd st @ map (\<lambda>i. createRing (rs i) isA (elementId (fst st)) (rid i) pp)
                          (filter (\<lambda>i. isExtracted isect env (LinearRing (rs i))) (j # js)))"
    by (simp add: extractRingToSegmentString_eq)
  finally show ?case .
qed

lemma ringSegmentStrings_Cons:
  "ringSegmentStrings isect isA env (shell # holes) eid pp =
     (if isExtracted isect env (LinearRing shell) then [createRing shell isA eid 0 pp] else [])
     @ map (\<lambda>i. createRing (holes ! i) isA eid (int (i + 1)) pp)
           (filter (\<lambda>i. isExtracted isect env (LinearRing (holes ! i))) [0 ..< length holes])"
proof -
  have u: "[0 ..< length (shell # holes)] = 0 # map Suc [0 ..< length holes]"
    by (simp add: upt_conv_Cons map_Suc_upt del: upt_Suc)
  show ?thesis
    unfolding ringSegmentStrings_def u
    by (simp add: filter_map comp_def)
qed

lemma extractSegmentStringsFromAtomic_eq:
  "extractSegmentStringsFromAtomic isect isA g
       (if getGeometryTypeId parent = GEOS_MULTIPOLYGON then Some parent else None) env st =
     (if isExtracted isect env g
      then ((fst st)\<lparr>elementId := elementId (fst st) + 1\<rparr>,
            snd st @ atomicSegmentStrings isect isA env (elementId (fst st) + 1) g parent)
      else st)"
proof (cases "isExtracted isect env g")
  case False
  then show ?thesis
    by (cases env) (auto simp: extractSegmentStringsFromAtomic_def isExtracted_def)
next
  case True
  then have ne: "\<not> isEmpty g" and pass: "(case env of None \<Rightarrow> True | Some e \<Rightarrow> isect e g)"
    by (simp_all add: isExtracted_def)
  let ?rg = "(fst st)\<lparr>elementId := elementId (fst st) + 1\<rparr>"
  have step: "extractSegmentStringsFromAtomic isect isA g
       (if getGeometryTypeId parent = GEOS_MULTIPOLYGON then Some parent else None) env st =
     (case g of
        LineString cs \<Rightarrow> (?rg, snd st @ [createLine cs isA (elementId ?rg)])
      | Polygon shell holes \<Rightarrow>
          fold (\<lambda>i. extractRingToSegmentString isect isA (holes ! i) (int (i + 1)) env
                      (ringParent g parent))
               [0 ..< length holes]
               (extractRingToSegmentString isect isA shell 0 env (ringParent g parent)
                  (?rg, snd st))
      | _ \<Rightarrow> (?rg, snd st))"
    using ne pass
    by (cases g; cases env)
       (simp_all add: extractSegmentStringsFromAtomic_def ringParent_def Let_def)
  show ?thesis
  proof (cases g)
    case (Polygon shell holes)
    show ?thesis
      using True
      by (subst step)
         (simp add: fold_extractRingToSegmentString extractRingToSegmentString_eq
                    ringSegmentStrings_Cons Polygon)
  qed (use True step in simp_all)
qed

lemma extractSegmentStrings_in_visits:
  "extractSegmentStrings_in isect isA env p_geom st =
     fold (\<lambda>v. extractSegmentStringsFromAtomic isect isA (fst v)
                  (if getGeometryTypeId (snd v) = GEOS_MULTIPOLYGON then Some (snd v) else None)
                  env)
          (atomicVisits p_geom) st"
proof (induction isect isA env p_geom st rule: extractSegmentStrings_in.induct)
  case (1 isect isA env p_geom st)
  let ?F = "\<lambda>v. extractSegmentStringsFromAtomic isect isA (fst v)
                  (if getGeometryTypeId (snd v) = GEOS_MULTIPOLYGON then Some (snd v) else None)
                  env"
  have gen: "set gs \<subseteq> set (getGeometries p_geom) \<Longrightarrow>
     fold (\<lambda>g st'.
             if getGeometryTypeId g = GEOS_GEOMETRYCOLLECTION
             then extractSegmentStrings_in isect isA env g st'
             else extractSegmentStringsFromAtomic isect isA g
                    (if getGeometryTypeId p_geom = GEOS_MULTIPOLYGON then Some p_geom else None)
                    env st') gs s
     = fold ?F (concat (map (\<lambda>g. if getGeometryTypeId g = GEOS_GEOMETRYCOLLECTION
                        then atomicVisits g else [(g, p_geom)]) gs)) s" for gs s
  proof (induction gs arbitrary: s)
    case Nil
    show ?case by simp
  next
    case (Cons g gs)
    then have g: "g \<in> set (getGeometries p_geom)" and gs: "set gs \<subseteq> set (getGeometries p_geom)"
      by simp_all
    show ?case
    proof (cases "getGeometryTypeId g = GEOS_GEOMETRYCOLLECTION")
      case True
      from "1.IH" [OF g True] Cons.IH [OF gs] True show ?thesis by simp
    next
      case False
      with Cons.IH [OF gs] show ?thesis by simp
    qed
  qed
  show ?case
    by (subst extractSegmentStrings_in.simps, subst atomicVisits.simps) (rule gen, simp)
qed
lemma fold_extractSegmentStringsFromAtomic:
  "fold (\<lambda>v. extractSegmentStringsFromAtomic isect isA (fst v)
                  (if getGeometryTypeId (snd v) = GEOS_MULTIPOLYGON then Some (snd v) else None)
                  env) vs st =
     ((fst st)\<lparr>elementId := elementId (fst st)
                   + int (length (filter (\<lambda>v. isExtracted isect env (fst v)) vs))\<rparr>,
      snd st @ numberedSegmentStrings isect isA env (elementId (fst st) + 1)
                 (filter (\<lambda>v. isExtracted isect env (fst v)) vs))"
proof (induction vs arbitrary: st)
  case Nil
  show ?case by simp
next
  case (Cons v vs)
  let ?F = "\<lambda>v. extractSegmentStringsFromAtomic isect isA (fst v)
                  (if getGeometryTypeId (snd v) = GEOS_MULTIPOLYGON then Some (snd v) else None)
                  env"
  let ?ext = "\<lambda>v. isExtracted isect env (fst v)"
  have "fold ?F (v # vs) st = fold ?F vs (?F v st)" by simp
  also have "\<dots> = ((fst (?F v st))\<lparr>elementId := elementId (fst (?F v st))
                   + int (length (filter ?ext vs))\<rparr>,
      snd (?F v st) @ numberedSegmentStrings isect isA env (elementId (fst (?F v st)) + 1)
                 (filter ?ext vs))"
    by (rule Cons.IH)
  also have "\<dots> = ((fst st)\<lparr>elementId := elementId (fst st)
                   + int (length (filter ?ext (v # vs)))\<rparr>,
      snd st @ numberedSegmentStrings isect isA env (elementId (fst st) + 1)
                 (filter ?ext (v # vs)))"
  proof (cases "?ext v")
    case True
    have e: "?F v st = ((fst st)\<lparr>elementId := elementId (fst st) + 1\<rparr>,
            snd st @ atomicSegmentStrings isect isA env (elementId (fst st) + 1) (fst v) (snd v))"
      by (subst extractSegmentStringsFromAtomic_eq) (simp add: True)
    show ?thesis
      unfolding e using True
      by (cases v) (simp add: add.commute add.left_commute)
  next
    case False
    have e: "?F v st = st"
      by (subst extractSegmentStringsFromAtomic_eq) (simp add: False)
    show ?thesis
      unfolding e using False by simp
  qed
  finally show ?case .
qed

lemma extractSegmentStrings_eq:
  "extractSegmentStrings isect rg isA env =
     (numberedSegmentStrings isect isA env (elementId rg + 1)
        (extractedVisits isect env (geom rg)),
      rg\<lparr>elementId := elementId rg + int (length (extractedVisits isect env (geom rg)))\<rparr>)"
  by (simp add: extractSegmentStrings_def Let_def extractSegmentStrings_in_visits
                fold_extractSegmentStringsFromAtomic extractedVisits_def)

lemma numberedSegmentStrings_concat:
  "numberedSegmentStrings isect isA env eid vs =
     concat (map (\<lambda>j. atomicSegmentStrings isect isA env (eid + int j)
                         (fst (vs ! j)) (snd (vs ! j)))
                 [0 ..< length vs])"
proof (induction vs arbitrary: eid)
  case Nil
  show ?case by simp
next
  case (Cons v vs)
  have u: "[0 ..< length (v # vs)] = 0 # map Suc [0 ..< length vs]"
    by (simp add: upt_conv_Cons map_Suc_upt del: upt_Suc)
  show ?case
    unfolding u
    by (cases v) (simp add: Cons.IH comp_def ac_simps)
qed

lemma atomicSegmentStrings_id:
  "s \<in> set (atomicSegmentStrings isect isA env eid g parent) \<Longrightarrow> ss_id s = eid"
  by (cases g) (auto simp: createLine_def createRing_def ringSegmentStrings_def)

text \<open>
  Claim C5, as the code has it. The atomic elements that are extracted (not
  empty, envelope intersecting the filter) are numbered in traversal order by
  the element counter of the \<open>RelateGeometry\<close>: the j-th of them (from 0)
  receives the id \<open>elementId + 1 + j\<close>, every segment string made from it
  carries that id, and the counter is left advanced by their number, so that
  it continues in the next call. An extracted line string yields exactly one
  segment string, with ring id -1. An extracted polygon yields one segment
  string for each of its rings that is not empty and whose envelope intersects
  the filter, with ring id 0 for the shell and i for the i-th hole.
\<close>

theorem extractSegmentStrings_element_and_ring_ids:
  "fst (extractSegmentStrings isect rg isA env) =
     concat (map (\<lambda>j. atomicSegmentStrings isect isA env (elementId rg + 1 + int j)
                         (fst (extractedVisits isect env (geom rg) ! j))
                         (snd (extractedVisits isect env (geom rg) ! j)))
                 [0 ..< length (extractedVisits isect env (geom rg))])
   \<and> elementId (snd (extractSegmentStrings isect rg isA env)) =
       elementId rg + int (length (extractedVisits isect env (geom rg)))
   \<and> (\<forall>s \<in> set (atomicSegmentStrings isect isA env eid g parent). ss_id s = eid)
   \<and> atomicSegmentStrings isect isA env eid (LineString cs) parent = [createLine cs isA eid]
   \<and> ss_ringId (createLine cs isA eid) = - 1
   \<and> atomicSegmentStrings isect isA env eid (Polygon shell holes) parent =
       map (\<lambda>i. createRing ((shell # holes) ! i) isA eid (int i)
                   (ringParent (Polygon shell holes) parent))
           (filter (\<lambda>i. isExtracted isect env (LinearRing ((shell # holes) ! i)))
                   [0 ..< length (shell # holes)])
   \<and> ss_ringId (createRing r isA eid rid pp) = rid"
proof (intro conjI)
  show "fst (extractSegmentStrings isect rg isA env) =
     concat (map (\<lambda>j. atomicSegmentStrings isect isA env (elementId rg + 1 + int j)
                         (fst (extractedVisits isect env (geom rg) ! j))
                         (snd (extractedVisits isect env (geom rg) ! j)))
                 [0 ..< length (extractedVisits isect env (geom rg))])"
    by (simp add: extractSegmentStrings_eq numberedSegmentStrings_concat)
  show "elementId (snd (extractSegmentStrings isect rg isA env)) =
       elementId rg + int (length (extractedVisits isect env (geom rg)))"
    by (simp add: extractSegmentStrings_eq)
  show "\<forall>s \<in> set (atomicSegmentStrings isect isA env eid g parent). ss_id s = eid"
    using atomicSegmentStrings_id by blast
  show "atomicSegmentStrings isect isA env eid (LineString cs) parent = [createLine cs isA eid]"
    by simp
  show "ss_ringId (createLine cs isA eid) = - 1"
    by (simp add: createLine_def)
  show "atomicSegmentStrings isect isA env eid (Polygon shell holes) parent =
       map (\<lambda>i. createRing ((shell # holes) ! i) isA eid (int i)
                   (ringParent (Polygon shell holes) parent))
           (filter (\<lambda>i. isExtracted isect env (LinearRing ((shell # holes) ! i)))
                   [0 ..< length (shell # holes)])"
    by (simp only: atomicSegmentStrings.simps ringSegmentStrings_def)
  show "ss_ringId (createRing r isA eid rid pp) = rid"
    by (simp add: createRing_def)
qed
lemma atomicVisits_atomic:
  "getGeometries g = [g] \<Longrightarrow> getGeometryTypeId g \<noteq> GEOS_GEOMETRYCOLLECTION \<Longrightarrow>
     atomicVisits g = [(g, g)]"
  by (subst atomicVisits.simps) simp

theorem extractSegmentStrings_element_and_ring_ids_witness:
  "RelateGeometry_new
     (GeometryCollection
        [LineString (seq2 [xy 0 0, xy 1 1]), Point (seq2 [xy 7 7]),
         Polygon (seq2 [xy 0 0, xy 10 0, xy 10 10, xy 0 0])
                 [seq2 [xy 1 1, xy 2 1, xy 2 2, xy 1 1]]])
     False Mod2
   = Inr ((RelateGeometry_members
            (GeometryCollection
               [LineString (seq2 [xy 0 0, xy 1 1]), Point (seq2 [xy 7 7]),
                Polygon (seq2 [xy 0 0, xy 10 0, xy 10 10, xy 0 0])
                        [seq2 [xy 1 1, xy 2 1, xy 2 2, xy 1 1]]])
            False Mod2 False) \<lparr>hasPoints := True, hasLines := True, hasAreas := True\<rparr>)
   \<and> map (\<lambda>s. (ss_id s, ss_ringId s))
     (fst (extractSegmentStrings envelopeIntersects
        ((RelateGeometry_members
           (GeometryCollection
              [LineString (seq2 [xy 0 0, xy 1 1]), Point (seq2 [xy 7 7]),
               Polygon (seq2 [xy 0 0, xy 10 0, xy 10 10, xy 0 0])
                       [seq2 [xy 1 1, xy 2 1, xy 2 2, xy 1 1]]])
           False Mod2 False) \<lparr>hasPoints := True, hasLines := True, hasAreas := True\<rparr>)
        True None))
     = [(1, - 1), (3, 0), (3, 1)]
   \<and> elementId (snd (extractSegmentStrings envelopeIntersects
        ((RelateGeometry_members
           (GeometryCollection
              [LineString (seq2 [xy 0 0, xy 1 1]), Point (seq2 [xy 7 7]),
               Polygon (seq2 [xy 0 0, xy 10 0, xy 10 10, xy 0 0])
                       [seq2 [xy 1 1, xy 2 1, xy 2 2, xy 1 1]]])
           False Mod2 False) \<lparr>hasPoints := True, hasLines := True, hasAreas := True\<rparr>)
        True None)) = 3"
proof -
  let ?X = "GeometryCollection
              [LineString (seq2 [xy 0 0, xy 1 1]), Point (seq2 [xy 7 7]),
               Polygon (seq2 [xy 0 0, xy 10 0, xy 10 10, xy 0 0])
                       [seq2 [xy 1 1, xy 2 1, xy 2 2, xy 1 1]]]"
  let ?rg = "(RelateGeometry_members ?X False Mod2 False)
               \<lparr>hasPoints := True, hasLines := True, hasAreas := True\<rparr>"
  have zl: "isZeroLength ?X = Inr False"
    by (simp add: isZeroLength_def isZeroLength_LineString_def isZeroLength_loop.simps
                  getNumPoints_def getCoordinateN_def equals2D_def)
  have new: "RelateGeometry_new ?X False Mod2 = Inr ?rg"
    by (simp add: RelateGeometry_new_def zl analyzeDimensions_def analyzeDimensions_elem_def
                  RelateGeometry_members_def Dimension_False_def Dimension_P_def
                  Dimension_L_def Dimension_A_def)
  have g: "geom ?rg = ?X" and e: "elementId ?rg = 0"
    by (simp_all add: RelateGeometry_members_def)
  have v: "extractedVisits envelopeIntersects None ?X =
     [(LineString (seq2 [xy 0 0, xy 1 1]), ?X), (Point (seq2 [xy 7 7]), ?X),
      (Polygon (seq2 [xy 0 0, xy 10 0, xy 10 10, xy 0 0])
               [seq2 [xy 1 1, xy 2 1, xy 2 2, xy 1 1]], ?X)]"
    by (subst extractedVisits_def, subst atomicVisits.simps) (simp add: isExtracted_def)
  have u: "[0 ..< 3] = [0, 1, 2]" by (simp add: upt_rec)
  have u2: "[0 ..< 2] = [0, 1]" by (simp add: upt_rec)
  note t = extractSegmentStrings_element_and_ring_ids
             [of envelopeIntersects ?rg True None]
  have a: "fst (extractSegmentStrings envelopeIntersects ?rg True None) =
     concat (map (\<lambda>j. atomicSegmentStrings envelopeIntersects True None (elementId ?rg + 1 + int j)
                         (fst (extractedVisits envelopeIntersects None (geom ?rg) ! j))
                         (snd (extractedVisits envelopeIntersects None (geom ?rg) ! j)))
                 [0 ..< length (extractedVisits envelopeIntersects None (geom ?rg))])"
    using t by blast
  have b: "elementId (snd (extractSegmentStrings envelopeIntersects ?rg True None)) =
       elementId ?rg + int (length (extractedVisits envelopeIntersects None (geom ?rg)))"
    using t by blast
  have "map (\<lambda>s. (ss_id s, ss_ringId s))
          (fst (extractSegmentStrings envelopeIntersects ?rg True None))
        = [(1, - 1), (3, 0), (3, 1)]"
    unfolding a g v e
    by (simp add: u u2 ringSegmentStrings_def isExtracted_def createLine_def createRing_def)
  moreover have "elementId (snd (extractSegmentStrings envelopeIntersects ?rg True None)) = 3"
    unfolding b g v e by simp
  ultimately show ?thesis using new by blast
qed

text \<open>
  Claim C5 as stated fails twice, on objects the constructor returns. For
  \<open>MULTIPOLYGON (((0 0, 10 0, 10 10, 0 0), (1 1, 2 1, 2 2, 1 1)))\<close> and the
  filter rectangle [5,6] x [5,6] the polygon is extracted, but only its shell
  yields a segment string: the hole's envelope misses the filter. And the
  counter is not per call: for \<open>MULTILINESTRING ((0 0, 1 1))\<close> a second call
  on the same \<open>RelateGeometry\<close> gives the same line string the id 2.
\<close>

theorem extractSegmentStrings_ids_counterexample:
  "RelateGeometry_new
     (MultiPolygon [Polygon (seq2 [xy 0 0, xy 10 0, xy 10 10, xy 0 0])
                            [seq2 [xy 1 1, xy 2 1, xy 2 2, xy 1 1]]]) False Mod2
   = Inr ((RelateGeometry_members
             (MultiPolygon [Polygon (seq2 [xy 0 0, xy 10 0, xy 10 10, xy 0 0])
                                    [seq2 [xy 1 1, xy 2 1, xy 2 2, xy 1 1]]])
             False Mod2 True) \<lparr>hasAreas := True, geomDim := Dimension_A\<rparr>)
   \<and> map (\<lambda>s. (ss_id s, ss_ringId s))
     (fst (extractSegmentStrings envelopeIntersects
        ((RelateGeometry_members
             (MultiPolygon [Polygon (seq2 [xy 0 0, xy 10 0, xy 10 10, xy 0 0])
                                    [seq2 [xy 1 1, xy 2 1, xy 2 2, xy 1 1]]])
             False Mod2 True) \<lparr>hasAreas := True, geomDim := Dimension_A\<rparr>)
        True (Some \<lparr>minx = 5, maxx = 6, miny = 5, maxy = 6\<rparr>)))
     = [(1, 0)]
   \<and> RelateGeometry_new (MultiLineString [LineString (seq2 [xy 0 0, xy 1 1])]) False Mod2
   = Inr ((RelateGeometry_members (MultiLineString [LineString (seq2 [xy 0 0, xy 1 1])])
             False Mod2 False) \<lparr>hasLines := True, geomDim := Dimension_L\<rparr>)
   \<and> map ss_id
       (fst (extractSegmentStrings envelopeIntersects
          ((RelateGeometry_members (MultiLineString [LineString (seq2 [xy 0 0, xy 1 1])])
             False Mod2 False) \<lparr>hasLines := True, geomDim := Dimension_L\<rparr>)
          True None))
     = [1]
   \<and> map ss_id
       (fst (extractSegmentStrings envelopeIntersects
          (snd (extractSegmentStrings envelopeIntersects
             ((RelateGeometry_members (MultiLineString [LineString (seq2 [xy 0 0, xy 1 1])])
                False Mod2 False) \<lparr>hasLines := True, geomDim := Dimension_L\<rparr>)
             True None))
          True None))
     = [2]"
proof -
  let ?polys = "MultiPolygon [Polygon (seq2 [xy 0 0, xy 10 0, xy 10 10, xy 0 0])
                                   [seq2 [xy 1 1, xy 2 1, xy 2 2, xy 1 1]]]"
  let ?lines = "MultiLineString [LineString (seq2 [xy 0 0, xy 1 1])]"
  let ?rgP = "(RelateGeometry_members ?polys False Mod2 True)
                \<lparr>hasAreas := True, geomDim := Dimension_A\<rparr>"
  let ?rgL = "(RelateGeometry_members ?lines False Mod2 False)
                \<lparr>hasLines := True, geomDim := Dimension_L\<rparr>"
  have u2: "[0 ..< 2] = [0, 1]" by (simp add: upt_rec)
  have newP: "RelateGeometry_new ?polys False Mod2 = Inr ?rgP"
    by (simp add: RelateGeometry_new_def isZeroLength_def analyzeDimensions_def
                  RelateGeometry_members_def)
  have zl: "isZeroLength ?lines = Inr False"
    by (simp add: isZeroLength_def isZeroLength_LineString_def isZeroLength_loop.simps
                  getNumPoints_def getCoordinateN_def equals2D_def)
  have newL: "RelateGeometry_new ?lines False Mod2 = Inr ?rgL"
    by (simp add: RelateGeometry_new_def zl analyzeDimensions_def RelateGeometry_members_def)
  have vP: "atomicVisits ?polys =
              [(Polygon (seq2 [xy 0 0, xy 10 0, xy 10 10, xy 0 0])
                        [seq2 [xy 1 1, xy 2 1, xy 2 2, xy 1 1]], ?polys)]"
    by (subst atomicVisits.simps) simp
  have vL: "atomicVisits ?lines = [(LineString (seq2 [xy 0 0, xy 1 1]), ?lines)]"
    by (subst atomicVisits.simps) simp
  have 1: "map (\<lambda>s. (ss_id s, ss_ringId s))
     (fst (extractSegmentStrings envelopeIntersects ?rgP True
        (Some \<lparr>minx = 5, maxx = 6, miny = 5, maxy = 6\<rparr>)))
     = [(1, 0)]"
    by (simp add: extractSegmentStrings_eq extractedVisits_def vP
                  RelateGeometry_members_def isExtracted_def envelopeIntersects_def
                  getEnvelopeInternal_def ringSegmentStrings_def createRing_def u2)
  have 2: "extractSegmentStrings envelopeIntersects ?rgL True None
           = ([createLine (seq2 [xy 0 0, xy 1 1]) True 1], ?rgL\<lparr>elementId := 1\<rparr>)"
    by (simp add: extractSegmentStrings_eq extractedVisits_def vL
                  RelateGeometry_members_def isExtracted_def)
  have 3: "map ss_id (fst (extractSegmentStrings envelopeIntersects
             (?rgL\<lparr>elementId := 1\<rparr>) True None)) = [2]"
    by (simp add: extractSegmentStrings_eq extractedVisits_def vL
                  RelateGeometry_members_def isExtracted_def createLine_def)
  from newP newL 1 2 3 show ?thesis by (simp add: createLine_def)
qed

lemma extraction_guards:
  "(isEmpty g \<longrightarrow> extractSegmentStringsFromAtomic isect isA g par env st = st)
   \<and> (isEmpty (LinearRing ring) \<longrightarrow>
          extractRingToSegmentString isect isA ring rid env pp st = st)
   \<and> (\<not> isect e g \<longrightarrow> extractSegmentStringsFromAtomic isect isA g par (Some e) st = st)
   \<and> (\<not> isect e (LinearRing ring) \<longrightarrow>
          extractRingToSegmentString isect isA ring rid (Some e) pp st = st)
   \<and> (\<not> isEmpty g \<longrightarrow>
          elementId (fst (extractSegmentStringsFromAtomic isect isA g par None st))
            = elementId (fst st) + 1)"
proof -
  have ring_fst: "fst (extractRingToSegmentString isect isA r i None p s) = fst s" for r i p s
    by (simp add: extractRingToSegmentString_def)
  have fold_fst: "fst (fold (\<lambda>i. extractRingToSegmentString isect isA (rs i) (ri i) None p) js s)
                    = fst s" for rs ri p js s
    by (induction js arbitrary: s) (simp_all add: ring_fst)
  have "\<not> isEmpty g \<Longrightarrow>
          elementId (fst (extractSegmentStringsFromAtomic isect isA g par None st))
            = elementId (fst st) + 1"
    by (cases g) (simp_all add: extractSegmentStringsFromAtomic_def Let_def fold_fst ring_fst)
  then show ?thesis
    by (simp add: extractSegmentStringsFromAtomic_def extractRingToSegmentString_def)
qed

text \<open>
  Claim C6 asks that with a null filter every non-empty atomic element be
  extracted. On \<open>GEOMETRYCOLLECTION (MULTILINESTRING ((0 0, 1 1)))\<close> the
  traversal hands the whole \<open>MultiLineString\<close> to
  \<open>extractSegmentStringsFromAtomic\<close>, which counts it as one element and
  emits nothing: the non-empty line string in it yields no segment string.
\<close>

theorem extractSegmentStrings_nested_multi:
  "extractSegmentStrings envelopeIntersects
     (RelateGeometry_members
        (GeometryCollection [MultiLineString [LineString (seq2 [xy 0 0, xy 1 1])]])
        False Mod2 False) True None
   = ([], (RelateGeometry_members
             (GeometryCollection [MultiLineString [LineString (seq2 [xy 0 0, xy 1 1])]])
             False Mod2 False) \<lparr>elementId := 1\<rparr>)
   \<and> nonEmptyElements (GeometryCollection [MultiLineString [LineString (seq2 [xy 0 0, xy 1 1])]])
     = [LineString (seq2 [xy 0 0, xy 1 1])]"
proof -
  have "extractSegmentStrings_in envelopeIntersects True None
          (GeometryCollection [MultiLineString [LineString (seq2 [xy 0 0, xy 1 1])]])
          (RelateGeometry_members
             (GeometryCollection [MultiLineString [LineString (seq2 [xy 0 0, xy 1 1])]])
             False Mod2 False, [])
        = ((RelateGeometry_members
             (GeometryCollection [MultiLineString [LineString (seq2 [xy 0 0, xy 1 1])]])
             False Mod2 False) \<lparr>elementId := 1\<rparr>, [])"
    by (subst extractSegmentStrings_in.simps)
       (simp add: extractSegmentStringsFromAtomic_def RelateGeometry_members_def)
  then show ?thesis
    by (simp add: extractSegmentStrings_def RelateGeometry_members_def
                  nonEmptyElements_def elements_def)
qed
lemma atomicVisits_parent:
  "(g, parent) \<in> set (atomicVisits p) \<Longrightarrow>
     g \<in> set (getGeometries parent) \<and> getGeometryTypeId g \<noteq> GEOS_GEOMETRYCOLLECTION
     \<and> (parent = p \<or> getGeometryTypeId parent = GEOS_GEOMETRYCOLLECTION)"
proof (induction p rule: atomicVisits.induct)
  case (1 p_geom)
  from "1.prems" obtain m where m: "m \<in> set (getGeometries p_geom)"
    and gm: "(g, parent) \<in> set (if getGeometryTypeId m = GEOS_GEOMETRYCOLLECTION
                                  then atomicVisits m else [(m, p_geom)])"
    by (subst (asm) atomicVisits.simps) auto
  show ?case
  proof (cases "getGeometryTypeId m = GEOS_GEOMETRYCOLLECTION")
    case True
    with gm have "(g, parent) \<in> set (atomicVisits m)" by simp
    from "1.IH" [OF m True this]
    have "g \<in> set (getGeometries parent)" "getGeometryTypeId g \<noteq> GEOS_GEOMETRYCOLLECTION"
      "parent = m \<or> getGeometryTypeId parent = GEOS_GEOMETRYCOLLECTION" by simp_all
    with True show ?thesis by auto
  next
    case False
    with gm have "g = m" "parent = p_geom" by simp_all
    with m False show ?thesis by simp
  qed
qed

lemma numberedSegmentStrings_member:
  "s \<in> set (numberedSegmentStrings isect isA env eid vs) \<Longrightarrow>
     \<exists>g parent i. (g, parent) \<in> set vs \<and> s \<in> set (atomicSegmentStrings isect isA env i g parent)"
proof (induction vs arbitrary: eid)
  case Nil
  then show ?case by simp
next
  case (Cons v vs)
  obtain g parent where v: "v = (g, parent)" by (cases v)
  from Cons.prems v consider "s \<in> set (atomicSegmentStrings isect isA env eid g parent)"
    | "s \<in> set (numberedSegmentStrings isect isA env (eid + 1) vs)" by auto
  then show ?case
  proof cases
    case 1
    with v show ?thesis by auto
  next
    case 2
    from Cons.IH [OF 2] show ?thesis by auto
  qed
qed

lemma atomicSegmentStrings_parent:
  assumes "s \<in> set (atomicSegmentStrings isect isA env i g parent)"
  shows "(ss_dimension s = Dimension_A \<longrightarrow>
            (\<exists>shell holes. g = Polygon shell holes \<and> ss_pts s \<in> set (shell # holes))
            \<and> ss_parentPolygonal s = Some (ringParent g parent))
       \<and> (ss_dimension s \<noteq> Dimension_A \<longrightarrow>
            (\<exists>cs. g = LineString cs) \<and> ss_parentPolygonal s = None)"
proof (cases g)
  case (LineString cs)
  with assms show ?thesis
    by (simp add: createLine_def Dimension_L_def Dimension_A_def)
next
  case (Polygon shell holes)
  with assms obtain k where k: "k < length (shell # holes)"
    and s: "s = createRing ((shell # holes) ! k) isA i (int k) (ringParent g parent)"
    by (auto simp: ringSegmentStrings_def simp del: upt_Suc)
  from k have "(shell # holes) ! k \<in> set (shell # holes)" by (rule nth_mem)
  with s Polygon show ?thesis by (simp add: createRing_def)
qed (use assms in simp_all)

lemma atomicVisits_MultiPolygon:
  assumes "wellFormed (MultiPolygon gs)"
  shows "atomicVisits (MultiPolygon gs) = map (\<lambda>g. (g, MultiPolygon gs)) gs"
proof -
  have t: "\<forall>g \<in> set gs. getGeometryTypeId g = GEOS_POLYGON"
    using assms by (simp add: list_all_iff)
  have e: "map (\<lambda>g. if getGeometryTypeId g = GEOS_GEOMETRYCOLLECTION
                   then atomicVisits g else [(g, MultiPolygon gs)]) gs
        = map (\<lambda>g. [(g, MultiPolygon gs)]) gs"
    using t by (intro map_cong) auto
  have "atomicVisits (MultiPolygon gs)
        = concat (map (\<lambda>g. if getGeometryTypeId g = GEOS_GEOMETRYCOLLECTION
                   then atomicVisits g else [(g, MultiPolygon gs)]) gs)"
    by (subst atomicVisits.simps) simp
  also have "\<dots> = concat (map (\<lambda>g. [(g, MultiPolygon gs)]) gs)"
    by (simp only: e)
  also have "\<dots> = map (\<lambda>g. (g, MultiPolygon gs)) gs"
    by (induction gs) simp_all
  finally show ?thesis .
qed

text \<open>
  Claim C7. Every ring segment string produced by \<open>extractSegmentStrings\<close>
  comes from a polygon visited by the traversal together with its direct
  parent, the geometry whose member it is (a geometry that is not a collection
  is its own single member). The segment string refers to that parent when the
  parent is a \<open>MultiPolygon\<close>, and to the polygon itself otherwise. So when
  the input is a (well-formed) \<open>MultiPolygon\<close> every ring segment string
  refers to that \<open>MultiPolygon\<close>, and when the input is anything else, so
  that the polygon is reached directly or through a \<open>GeometryCollection\<close>,
  it refers to its own polygon and not to a \<open>MultiPolygon\<close>. Line segment
  strings carry no parent.
\<close>

theorem extractSegmentStrings_parentPolygonal:
  assumes "s \<in> set (fst (extractSegmentStrings isect rg isA env))"
  shows "(ss_dimension s = Dimension_A \<longrightarrow>
           (\<exists>shell holes parent.
              (Polygon shell holes, parent) \<in> set (atomicVisits (geom rg))
              \<and> Polygon shell holes \<in> set (getGeometries parent)
              \<and> ss_pts s \<in> set (shell # holes)
              \<and> ss_parentPolygonal s =
                  Some (if getGeometryTypeId parent = GEOS_MULTIPOLYGON
                        then parent else Polygon shell holes)))
       \<and> (ss_dimension s = Dimension_A \<and> getGeometryTypeId (geom rg) = GEOS_MULTIPOLYGON
            \<and> wellFormed (geom rg)
            \<longrightarrow> ss_parentPolygonal s = Some (geom rg))
       \<and> (ss_dimension s = Dimension_A \<and> getGeometryTypeId (geom rg) \<noteq> GEOS_MULTIPOLYGON
            \<longrightarrow> (\<exists>shell holes. ss_pts s \<in> set (shell # holes)
                    \<and> ss_parentPolygonal s = Some (Polygon shell holes)))
       \<and> (ss_dimension s \<noteq> Dimension_A \<longrightarrow> ss_parentPolygonal s = None)"
proof -
  from assms have "s \<in> set (numberedSegmentStrings isect isA env (elementId rg + 1)
                              (extractedVisits isect env (geom rg)))"
    by (simp add: extractSegmentStrings_eq)
  from numberedSegmentStrings_member [OF this]
  obtain g parent i where v: "(g, parent) \<in> set (extractedVisits isect env (geom rg))"
    and s: "s \<in> set (atomicSegmentStrings isect isA env i g parent)" by blast
  from v have vis: "(g, parent) \<in> set (atomicVisits (geom rg))"
    by (simp add: extractedVisits_def)
  from atomicVisits_parent [OF vis]
  have mem: "g \<in> set (getGeometries parent)"
    and par: "parent = geom rg \<or> getGeometryTypeId parent = GEOS_GEOMETRYCOLLECTION"
    by simp_all
  note a = atomicSegmentStrings_parent [OF s]
  have ring: "\<exists>shell holes. g = Polygon shell holes \<and> ss_pts s \<in> set (shell # holes)
                \<and> ss_parentPolygonal s =
                    Some (if getGeometryTypeId parent = GEOS_MULTIPOLYGON
                          then parent else Polygon shell holes)"
    if "ss_dimension s = Dimension_A"
    using a that by (auto simp: ringParent_def)
  show ?thesis
  proof (intro conjI impI)
    assume "ss_dimension s = Dimension_A"
    from ring [OF this] vis mem
    show "\<exists>shell holes parent.
              (Polygon shell holes, parent) \<in> set (atomicVisits (geom rg))
              \<and> Polygon shell holes \<in> set (getGeometries parent)
              \<and> ss_pts s \<in> set (shell # holes)
              \<and> ss_parentPolygonal s =
                  Some (if getGeometryTypeId parent = GEOS_MULTIPOLYGON
                        then parent else Polygon shell holes)"
      by blast
  next
    assume h: "ss_dimension s = Dimension_A \<and> getGeometryTypeId (geom rg) = GEOS_MULTIPOLYGON
            \<and> wellFormed (geom rg)"
    then obtain gs where gs: "geom rg = MultiPolygon gs" by (cases "geom rg") simp_all
    with h vis have "parent = geom rg"
      by (auto simp: atomicVisits_MultiPolygon)
    with ring h show "ss_parentPolygonal s = Some (geom rg)" by auto
  next
    assume h: "ss_dimension s = Dimension_A \<and> getGeometryTypeId (geom rg) \<noteq> GEOS_MULTIPOLYGON"
    with par have "getGeometryTypeId parent \<noteq> GEOS_MULTIPOLYGON" by auto
    with ring h show "\<exists>shell holes. ss_pts s \<in> set (shell # holes)
                    \<and> ss_parentPolygonal s = Some (Polygon shell holes)" by auto
  next
    assume "ss_dimension s \<noteq> Dimension_A"
    with a show "ss_parentPolygonal s = None" by blast
  qed
qed

theorem extractSegmentStrings_parentPolygonal_witness:
  "hd (fst (extractSegmentStrings envelopeIntersects
        ((RelateGeometry_members
            (MultiPolygon [Polygon (seq2 [xy 0 0, xy 10 0, xy 10 10, xy 0 0]) []])
            False Mod2 True) \<lparr>hasAreas := True, geomDim := Dimension_A\<rparr>) True None))
     \<in> set (fst (extractSegmentStrings envelopeIntersects
        ((RelateGeometry_members
            (MultiPolygon [Polygon (seq2 [xy 0 0, xy 10 0, xy 10 10, xy 0 0]) []])
            False Mod2 True) \<lparr>hasAreas := True, geomDim := Dimension_A\<rparr>) True None))
   \<and> RelateGeometry_new
        (MultiPolygon [Polygon (seq2 [xy 0 0, xy 10 0, xy 10 10, xy 0 0]) []]) False Mod2
       = Inr ((RelateGeometry_members
            (MultiPolygon [Polygon (seq2 [xy 0 0, xy 10 0, xy 10 10, xy 0 0]) []])
            False Mod2 True) \<lparr>hasAreas := True, geomDim := Dimension_A\<rparr>)
   \<and> ss_dimension (hd (fst (extractSegmentStrings envelopeIntersects
        ((RelateGeometry_members
            (MultiPolygon [Polygon (seq2 [xy 0 0, xy 10 0, xy 10 10, xy 0 0]) []])
            False Mod2 True) \<lparr>hasAreas := True, geomDim := Dimension_A\<rparr>) True None)))
       = Dimension_A
   \<and> wellFormed (MultiPolygon [Polygon (seq2 [xy 0 0, xy 10 0, xy 10 10, xy 0 0]) []])
   \<and> ss_parentPolygonal (hd (fst (extractSegmentStrings envelopeIntersects
        ((RelateGeometry_members
            (MultiPolygon [Polygon (seq2 [xy 0 0, xy 10 0, xy 10 10, xy 0 0]) []])
            False Mod2 True) \<lparr>hasAreas := True, geomDim := Dimension_A\<rparr>) True None)))
       = Some (MultiPolygon [Polygon (seq2 [xy 0 0, xy 10 0, xy 10 10, xy 0 0]) []])"
proof -
  let ?polys = "MultiPolygon [Polygon (seq2 [xy 0 0, xy 10 0, xy 10 10, xy 0 0]) []]"
  let ?rg = "(RelateGeometry_members ?polys False Mod2 True)
               \<lparr>hasAreas := True, geomDim := Dimension_A\<rparr>"
  let ?out = "fst (extractSegmentStrings envelopeIntersects ?rg True None)"
  have new: "RelateGeometry_new ?polys False Mod2 = Inr ?rg"
    by (simp add: RelateGeometry_new_def isZeroLength_def analyzeDimensions_def
                  RelateGeometry_members_def)
  have g: "geom ?rg = ?polys" by (simp add: RelateGeometry_members_def)
  have "extractSegmentStrings_in envelopeIntersects True None ?polys (?rg, [])
        = (?rg\<lparr>elementId := 1\<rparr>,
           [createRing (seq2 [xy 0 0, xy 10 0, xy 10 10, xy 0 0]) True 1 0 ?polys])"
    by (subst extractSegmentStrings_in.simps)
       (simp add: extractSegmentStringsFromAtomic_def extractRingToSegmentString_def
                  RelateGeometry_members_def)
  then have out: "?out = [createRing (seq2 [xy 0 0, xy 10 0, xy 10 10, xy 0 0]) True 1 0 ?polys]"
    by (simp add: extractSegmentStrings_def g)
  have mem: "hd ?out \<in> set ?out" by (simp add: out)
  have d: "ss_dimension (hd ?out) = Dimension_A" by (simp add: out createRing_def)
  have wf: "wellFormed ?polys" by simp
  have ty: "getGeometryTypeId (geom ?rg) = GEOS_MULTIPOLYGON" by (simp add: g)
  have wf': "wellFormed (geom ?rg)" by (simp add: g)
  have "ss_parentPolygonal (hd ?out) = Some (geom ?rg)"
    using extractSegmentStrings_parentPolygonal [OF mem] d ty wf' by blast
  then have p: "ss_parentPolygonal (hd ?out) = Some ?polys" by (simp only: g)
  from mem new d wf p show ?thesis by blast
qed

subsection \<open>Lazy caches\<close>




lemma getUniquePoints_geom:
  "geom (snd (getUniquePoints extracter rg)) = geom rg"
  by (simp add: getUniquePoints_def Let_def)



subsection \<open>WKBWriter\<close>

lemma concat_map_index:
  "concat (map (\<lambda>i. f (xs ! i)) [0 ..< length xs]) = concat (map f xs)"
proof -
  have "map (\<lambda>i. f (xs ! i)) [0 ..< length xs] = map f (map (\<lambda>i. xs ! i) [0 ..< length xs])"
    by (simp add: comp_def)
  also have "\<dots> = map f xs" by (simp only: map_nth)
  finally show ?thesis by simp
qed

lemma writeCoordinate_eq:
  "writeCoordinate w cs idx is3d =
     [DoubleItem (x_ord (coords cs ! idx)), DoubleItem (y_ord (coords cs ! idx))]
     @ (if is3d then [DoubleItem (x_ord (coords cs ! idx))] else [])"
  by (cases is3d) (simp_all add: writeCoordinate_def getX_def getY_def)

lemma writeCoordinateSequence_eq:
  "writeCoordinateSequence w cs sized =
     (if sized then writeInt (word_of_nat (length (coords cs))) else [])
     @ concat (map (\<lambda>c. [DoubleItem (x_ord c), DoubleItem (y_ord c)]
                        @ (if cs_dimension cs > 2 \<and> outputDimension w > 2
                           then [DoubleItem (x_ord c)] else []))
                   (coords cs))"
proof -
  let ?f = "\<lambda>c. [DoubleItem (x_ord c), DoubleItem (y_ord c)]
                        @ (if cs_dimension cs > 2 \<and> outputDimension w > 2
                           then [DoubleItem (x_ord c)] else [])"
  have "concat (map (\<lambda>i. writeCoordinate w cs i (cs_dimension cs > 2 \<and> outputDimension w > 2))
                    [0 ..< length (coords cs)])
        = concat (map (\<lambda>i. ?f (coords cs ! i)) [0 ..< length (coords cs)])"
    by (simp only: writeCoordinate_eq)
  also have "\<dots> = concat (map ?f (coords cs))"
    by (rule concat_map_index)
  finally show ?thesis
    by (simp add: writeCoordinateSequence_def Let_def)
qed

text \<open>
  Claim C9. With output dimension 3 and a coordinate sequence of dimension
  greater than 2, each coordinate is written as three 8-byte values, and the
  third is the coordinate's X ordinate again (not Z); with output dimension 2
  each coordinate is written as exactly two 8-byte values, X then Y. The
  values follow the coordinate count when the sequence is sized.
\<close>

theorem writeCoordinateSequence_ordinates:
  "(outputDimension w = 3 \<and> cs_dimension cs > 2 \<longrightarrow>
      writeCoordinateSequence w cs sized =
        (if sized then writeInt (word_of_nat (length (coords cs))) else [])
        @ concat (map (\<lambda>c. [DoubleItem (x_ord c), DoubleItem (y_ord c), DoubleItem (x_ord c)])
                      (coords cs))
      \<and> (\<forall>idx < length (coords cs).
            writeCoordinate w cs idx (cs_dimension cs > 2 \<and> outputDimension w > 2) =
              [DoubleItem (x_ord (coords cs ! idx)), DoubleItem (y_ord (coords cs ! idx)),
               DoubleItem (x_ord (coords cs ! idx))]))
   \<and> (outputDimension w = 2 \<longrightarrow>
      writeCoordinateSequence w cs sized =
        (if sized then writeInt (word_of_nat (length (coords cs))) else [])
        @ concat (map (\<lambda>c. [DoubleItem (x_ord c), DoubleItem (y_ord c)]) (coords cs)))
   \<and> itemSize (DoubleItem v) = 8"
proof (intro conjI impI allI)
  assume d3: "outputDimension w = 3 \<and> cs_dimension cs > 2"
  then have is3d: "cs_dimension cs > 2 \<and> outputDimension w > 2" by simp
  show "writeCoordinateSequence w cs sized =
        (if sized then writeInt (word_of_nat (length (coords cs))) else [])
        @ concat (map (\<lambda>c. [DoubleItem (x_ord c), DoubleItem (y_ord c), DoubleItem (x_ord c)])
                      (coords cs))"
    using is3d by (simp add: writeCoordinateSequence_eq)
  fix idx
  show "writeCoordinate w cs idx (cs_dimension cs > 2 \<and> outputDimension w > 2) =
              [DoubleItem (x_ord (coords cs ! idx)), DoubleItem (y_ord (coords cs ! idx)),
               DoubleItem (x_ord (coords cs ! idx))]"
    using is3d by (simp add: writeCoordinate_eq)
next
  assume d2: "outputDimension w = 2"
  show "writeCoordinateSequence w cs sized =
        (if sized then writeInt (word_of_nat (length (coords cs))) else [])
        @ concat (map (\<lambda>c. [DoubleItem (x_ord c), DoubleItem (y_ord c)]) (coords cs))"
    by (simp add: writeCoordinateSequence_eq d2)
next
  show "itemSize (DoubleItem v) = 8" by simp
qed

theorem writeCoordinateSequence_ordinates_witness:
  "outputDimension \<lparr>outputDimension = 3, byteOrder = 1\<rparr> = 3
   \<and> cs_dimension \<lparr>cs_dimension = 3, coords = [\<lparr>x_ord = 1, y_ord = 2, z_ord = 3\<rparr>]\<rparr> > 2
   \<and> writeCoordinateSequence \<lparr>outputDimension = 3, byteOrder = 1\<rparr>
        \<lparr>cs_dimension = 3, coords = [\<lparr>x_ord = 1, y_ord = 2, z_ord = 3\<rparr>]\<rparr> False
      = [DoubleItem 1, DoubleItem 2, DoubleItem 1]
   \<and> outputDimension \<lparr>outputDimension = 2, byteOrder = 1\<rparr> = 2
   \<and> writeCoordinateSequence \<lparr>outputDimension = 2, byteOrder = 1\<rparr>
        \<lparr>cs_dimension = 3, coords = [\<lparr>x_ord = 1, y_ord = 2, z_ord = 3\<rparr>]\<rparr> False
      = [DoubleItem 1, DoubleItem 2]"
proof -
  let ?cs = "\<lparr>cs_dimension = 3, coords = [\<lparr>x_ord = 1, y_ord = 2, z_ord = 3\<rparr>]\<rparr>"
  have a: "outputDimension \<lparr>outputDimension = 3, byteOrder = 1\<rparr> = 3 \<and> cs_dimension ?cs > 2"
    by simp
  have b: "outputDimension \<lparr>outputDimension = 2, byteOrder = 1\<rparr> = 2" by simp
  have "writeCoordinateSequence \<lparr>outputDimension = 3, byteOrder = 1\<rparr> ?cs False =
        (if False then writeInt (word_of_nat (length (coords ?cs))) else [])
        @ concat (map (\<lambda>c. [DoubleItem (x_ord c), DoubleItem (y_ord c), DoubleItem (x_ord c)])
                      (coords ?cs))"
    using writeCoordinateSequence_ordinates
            [of "\<lparr>outputDimension = 3, byteOrder = 1\<rparr>" ?cs False 0] a by blast
  then have c: "writeCoordinateSequence \<lparr>outputDimension = 3, byteOrder = 1\<rparr> ?cs False
      = [DoubleItem 1, DoubleItem 2, DoubleItem 1]" by simp
  have "writeCoordinateSequence \<lparr>outputDimension = 2, byteOrder = 1\<rparr> ?cs False =
        (if False then writeInt (word_of_nat (length (coords ?cs))) else [])
        @ concat (map (\<lambda>c. [DoubleItem (x_ord c), DoubleItem (y_ord c)]) (coords ?cs))"
    using writeCoordinateSequence_ordinates
            [of "\<lparr>outputDimension = 2, byteOrder = 1\<rparr>" ?cs False 0] b by blast
  then have d: "writeCoordinateSequence \<lparr>outputDimension = 2, byteOrder = 1\<rparr> ?cs False
      = [DoubleItem 1, DoubleItem 2]" by simp
  from a b c d show ?thesis by blast
qed
lemma write_error_iff:
  "(WKBWriter_write w g = Inl IllegalArgumentException) = containsEmptyPoint g
     \<and> WKBWriter_write w g \<noteq> Inl InvalidDowncast"
  "(writeGeometryCollection w gs wkbtype = Inl IllegalArgumentException)
       = list_ex containsEmptyPoint gs
     \<and> writeGeometryCollection w gs wkbtype \<noteq> Inl InvalidDowncast"
  "(writeElements w gs = Inl IllegalArgumentException) = list_ex containsEmptyPoint gs
     \<and> writeElements w gs \<noteq> Inl InvalidDowncast"
proof (induction w g and w gs wkbtype and w gs
       rule: WKBWriter_write_writeGeometryCollection_writeElements.induct)
  case (1 w cs)
  show ?case by (simp add: writePoint_def)
next
  case (2 w cs)
  show ?case by simp
next
  case (3 w cs)
  show ?case by simp
next
  case (4 w shell holes)
  show ?case by simp
next
  case (5 w gs)
  then show ?case by simp
next
  case (6 w gs)
  then show ?case by simp
next
  case (7 w gs)
  then show ?case by simp
next
  case (8 w gs)
  then show ?case by simp
next
  case (9 w gs wkbtype)
  then show ?case by (cases "writeElements w gs") auto
next
  case (10 w)
  show ?case by simp
next
  case (11 w elem elems)
  show ?case
  proof (cases "WKBWriter_write w elem")
    case (Inl e)
    with "11.IH"(1) show ?thesis by (cases e) auto
  next
    case (Inr out)
    with "11.IH"(1) have ne: "\<not> containsEmptyPoint elem" by auto
    from "11.IH"(2) [OF Inr] Inr ne show ?thesis
      by (cases "writeElements w elems") auto
  qed
qed

lemma write_result:
  "WKBWriter_write w g = Inl IllegalArgumentException \<or> (\<exists>out. WKBWriter_write w g = Inr out)"
proof (cases "WKBWriter_write w g")
  case (Inl e)
  with write_error_iff(1) [of w g] show ?thesis by (cases e) auto
next
  case (Inr out)
  then show ?thesis by simp
qed

text \<open>
  Claim C10. \<open>WKBWriter::write\<close> throws \<open>IllegalArgumentException\<close> exactly
  when the geometry contains an empty point (itself, or inside a multi-point or
  a collection, at any depth) and returns normally otherwise; line strings and
  polygons, empty or not, and the empty collection are written without error.
  The constructor throws \<open>IllegalArgumentException\<close> exactly when the
  requested output dimension is outside the range 2 to 3.
\<close>

theorem write_throws_iff_empty_point:
  "(WKBWriter_write w g = Inl IllegalArgumentException) = containsEmptyPoint g
   \<and> ((\<exists>out. WKBWriter_write w g = Inr out) = (\<not> containsEmptyPoint g))
   \<and> (\<exists>out. WKBWriter_write w (LineString cs) = Inr out)
   \<and> (\<exists>out. WKBWriter_write w (LinearRing cs) = Inr out)
   \<and> (\<exists>out. WKBWriter_write w (Polygon shell holes) = Inr out)
   \<and> (\<exists>out. WKBWriter_write w (GeometryCollection []) = Inr out)
   \<and> (WKBWriter_new dims bo = Inl IllegalArgumentException) = (dims < 2 \<or> dims > 3)
   \<and> ((\<exists>wr. WKBWriter_new dims bo = Inr wr) = (2 \<le> dims \<and> dims \<le> 3))"
proof (intro conjI)
  show a: "(WKBWriter_write w g = Inl IllegalArgumentException) = containsEmptyPoint g"
    using write_error_iff(1) [of w g] by blast
  show "(\<exists>out. WKBWriter_write w g = Inr out) = (\<not> containsEmptyPoint g)"
    using a write_result [of w g] by auto
  show "\<exists>out. WKBWriter_write w (LineString cs) = Inr out" by simp
  show "\<exists>out. WKBWriter_write w (LinearRing cs) = Inr out" by simp
  show "\<exists>out. WKBWriter_write w (Polygon shell holes) = Inr out" by simp
  show "\<exists>out. WKBWriter_write w (GeometryCollection []) = Inr out" by simp
  show "(WKBWriter_new dims bo = Inl IllegalArgumentException) = (dims < 2 \<or> dims > 3)"
    by (simp add: WKBWriter_new_def)
  show "(\<exists>wr. WKBWriter_new dims bo = Inr wr) = (2 \<le> dims \<and> dims \<le> 3)"
    by (auto simp: WKBWriter_new_def)
qed

theorem write_throws_iff_empty_point_witness:
  "containsEmptyPoint (GeometryCollection [LineString (seq2 []),
       MultiPoint [Point (seq2 [xy 1 2]), Point (seq2 [])]])
   \<and> WKBWriter_write \<lparr>outputDimension = 2, byteOrder = 1\<rparr>
        (GeometryCollection [LineString (seq2 []),
           MultiPoint [Point (seq2 [xy 1 2]), Point (seq2 [])]])
       = Inl IllegalArgumentException
   \<and> \<not> containsEmptyPoint (GeometryCollection [LineString (seq2 []),
       Polygon (seq2 []) [], MultiPoint [Point (seq2 [xy 1 2])]])
   \<and> (\<exists>out. WKBWriter_write \<lparr>outputDimension = 2, byteOrder = 1\<rparr>
        (GeometryCollection [LineString (seq2 []),
           Polygon (seq2 []) [], MultiPoint [Point (seq2 [xy 1 2])]]) = Inr out)
   \<and> WKBWriter_new 4 1 = Inl IllegalArgumentException
   \<and> (\<exists>wr. WKBWriter_new 3 1 = Inr wr)"
proof -
  have a: "containsEmptyPoint (GeometryCollection [LineString (seq2 []),
       MultiPoint [Point (seq2 [xy 1 2]), Point (seq2 [])]])" by simp
  have b: "\<not> containsEmptyPoint (GeometryCollection [LineString (seq2 []),
       Polygon (seq2 []) [], MultiPoint [Point (seq2 [xy 1 2])]])" by simp
  have c: "(4::int) < 2 \<or> (4::int) > 3" by simp
  have d: "(2::int) \<le> 3 \<and> (3::int) \<le> 3" by simp
  show ?thesis
    using a b c d
      write_throws_iff_empty_point [of "\<lparr>outputDimension = 2, byteOrder = 1\<rparr>"
         "GeometryCollection [LineString (seq2 []),
            MultiPoint [Point (seq2 [xy 1 2]), Point (seq2 [])]]" "seq2 []" "seq2 []" "[]" 4 1]
      write_throws_iff_empty_point [of "\<lparr>outputDimension = 2, byteOrder = 1\<rparr>"
         "GeometryCollection [LineString (seq2 []),
            Polygon (seq2 []) [], MultiPoint [Point (seq2 [xy 1 2])]]" "seq2 []" "seq2 []" "[]" 3 1]
    by blast
qed

end
